theory Spec2Isabelle
  imports Main "HOL-Library.Word" "HOL-Library.FSet" "HOL-Library.AList"
    "HOL-Library.Signed_Division"
begin

section \<open>The HA replica tracker (package ha)\<close>

text \<open>
  A shallow embedding of the tracker of \<^verbatim>\<open>package ha\<close>: the configuration and its
  validation, the two typed errors and their \<^verbatim>\<open>Is\<close> methods, the watch callback that
  maintains the local cache, the admission check \<^verbatim>\<open>CheckReplica\<close> with the mutator of
  \<^verbatim>\<open>checkKVStore\<close>, and the cleanup sweep \<^verbatim>\<open>cleanupOldReplicas\<close>.
\<close>

subsection \<open>Time\<close>

text \<open>
  A \<^verbatim>\<open>time.Duration\<close> is an \<^verbatim>\<open>int64\<close> count of nanoseconds: a 64-bit word, read with
  \<^const>\<open>sint\<close>, whose \<open>+\<close> wraps around; comparisons are the signed ones. A
  \<^verbatim>\<open>time.Time\<close> is an instant, here the (unbounded) number of nanoseconds since the Unix
  epoch. The timestamps stored in a descriptor are \<^verbatim>\<open>int64\<close> milliseconds.
\<close>

type_synonym Duration = "64 word"
type_synonym Time = int
type_synonym int64 = "64 word"

definition Millisecond :: Duration where
  "Millisecond = 1000000"

definition Second :: Duration where
  "Second = 1000000000"

definition Minute :: Duration where
  "Minute = 60 * Second"

text \<open>
  \<^verbatim>\<open>Time.Sub\<close> of the standard library: the difference of two instants, and the maximum
  (or minimum) duration when the difference does not fit a \<^verbatim>\<open>Duration\<close>.
\<close>

definition maxDuration :: int where
  "maxDuration = 9223372036854775807"

definition minDuration :: int where
  "minDuration = - 9223372036854775808"

definition time_Sub :: "Time \<Rightarrow> Time \<Rightarrow> Duration" where
  "time_Sub t u =
     (if t - u > maxDuration then word_of_int maxDuration
      else if t - u < minDuration then word_of_int minDuration
      else word_of_int (t - u))"

definition time_Add :: "Time \<Rightarrow> Duration \<Rightarrow> Time" where
  "time_Add t d = t + sint d"

definition time_Before :: "Time \<Rightarrow> Time \<Rightarrow> bool" where
  "time_Before t u = (t < u)"

definition time_After :: "Time \<Rightarrow> Time \<Rightarrow> bool" where
  "time_After t u = (t > u)"

text \<open>
  \<^verbatim>\<open>timestamp.Time\<close> and \<^verbatim>\<open>timestamp.FromTime\<close> of the Prometheus library:
  \<^verbatim>\<open>time.Unix(t/1000, (t%1000)*int64(time.Millisecond))\<close>, with Go's truncating
  division, and \<^verbatim>\<open>t.Unix()*1000 + int64(t.Nanosecond())/int64(time.Millisecond)\<close>, where
  \<^verbatim>\<open>t.Unix()\<close> rounds down and the sum is an \<^verbatim>\<open>int64\<close>.
\<close>

definition time_Unix :: "int \<Rightarrow> int \<Rightarrow> Time" where
  "time_Unix sec nsec = sec * 1000000000 + nsec"

definition timestamp_Time :: "int64 \<Rightarrow> Time" where
  "timestamp_Time t = time_Unix (sint t sdiv 1000) ((sint t smod 1000) * 1000000)"

definition timestamp_FromTime :: "Time \<Rightarrow> int64" where
  "timestamp_FromTime t =
     word_of_int ((t div 1000000000) * 1000 + (t mod 1000000000) div 1000000)"

subsection \<open>Data model\<close>

record ReplicaDesc =
  Replica :: string
  ReceivedAt :: int64
  DeletedAt :: int64

text \<open>
  What an \<^verbatim>\<open>interface{}\<close> handed over by the KV client can hold: the nil interface, a
  \<^verbatim>\<open>*ReplicaDesc\<close> that is nil, a \<^verbatim>\<open>*ReplicaDesc\<close> pointing to a descriptor, or a value
  of some other type.
\<close>

datatype kv_value = NilValue | NilDesc | DescPtr ReplicaDesc | Foreign

datatype panic = NilDereference | TypeAssertion | InvalidArgument

text \<open>Of \<^verbatim>\<open>kv.Config\<close> the tracker reads only the name of the backend.\<close>

record kv_Config =
  Store :: string

record HATrackerConfig =
  EnableHATracker :: bool
  UpdateTimeout :: Duration
  UpdateTimeoutJitterMax :: Duration
  FailoverTimeout :: Duration
  KVStore :: kv_Config

subsection \<open>Validation of the configuration\<close>

datatype config_error =
    errNegativeUpdateTimeoutJitterMax
  | errInvalidFailoverTimeout Duration Duration
  | errInvalidStore string

fun storeAllowed :: "string list \<Rightarrow> string \<Rightarrow> bool" where
  "storeAllowed [] s = False"
| "storeAllowed (a # as) s = (if s = a then True else storeAllowed as s)"

definition storeAllowedList :: "string list" where
  "storeAllowedList = [''consul'', ''etcd'']"

definition Validate :: "HATrackerConfig \<Rightarrow> config_error option" where
  "Validate cfg =
     (if UpdateTimeoutJitterMax cfg <s 0 then Some errNegativeUpdateTimeoutJitterMax
      else
        let minFailureTimeout = UpdateTimeout cfg + UpdateTimeoutJitterMax cfg + Second in
        if FailoverTimeout cfg <s minFailureTimeout
        then Some (errInvalidFailoverTimeout (FailoverTimeout cfg) minFailureTimeout)
        else if storeAllowed storeAllowedList (Store (KVStore cfg)) then None
        else Some (errInvalidStore (Store (KVStore cfg))))"

subsection \<open>The typed errors\<close>

text \<open>
  The fields \<^verbatim>\<open>replica\<close>, \<^verbatim>\<open>elected\<close> and \<^verbatim>\<open>limit\<close> of the two error structs carry the
  prefix \<open>err_\<close> here, since the tracker has a field \<^verbatim>\<open>elected\<close> of its own. The limit
  is a Go \<^verbatim>\<open>int\<close>; it is only compared with the size of a map plus one, which cannot
  overflow, so it is an integer here.
\<close>

record ReplicasNotMatchError =
  err_replica :: string
  err_elected :: string

record TooManyReplicaGroupsError =
  err_limit :: int

text \<open>
  A pointer is nil or an address together with what it points to. An \<^verbatim>\<open>error\<close> is an
  interface value: one of the two error structs, a pointer to one of them, or an error of
  another type (such as one made by the KV client), which has an identity and neither an
  \<^verbatim>\<open>Is\<close> nor an \<^verbatim>\<open>Unwrap\<close> method. The nil error is \<^const>\<open>None\<close>.
\<close>

datatype 'a ptr = NilPtr | Ptr nat 'a

datatype go_error =
    RNMVal ReplicasNotMatchError
  | RNMPtr "ReplicasNotMatchError ptr"
  | TMGVal TooManyReplicaGroupsError
  | TMGPtr "TooManyReplicaGroupsError ptr"
  | OtherError nat

text \<open>Go's \<^verbatim>\<open>==\<close>: structs by their fields, pointers by their address.\<close>

fun ptr_eq :: "'a ptr \<Rightarrow> 'a ptr \<Rightarrow> bool" where
  "ptr_eq NilPtr NilPtr = True"
| "ptr_eq (Ptr a _) (Ptr b _) = (a = b)"
| "ptr_eq _ _ = False"

fun error_eq :: "go_error \<Rightarrow> go_error \<Rightarrow> bool" where
  "error_eq (RNMVal a) (RNMVal b) = (a = b)"
| "error_eq (RNMPtr p) (RNMPtr q) = ptr_eq p q"
| "error_eq (TMGVal a) (TMGVal b) = (a = b)"
| "error_eq (TMGPtr p) (TMGPtr q) = ptr_eq p q"
| "error_eq (OtherError a) (OtherError b) = (a = b)"
| "error_eq _ _ = False"

text \<open>
  The two \<^verbatim>\<open>Is\<close> methods, which have value receivers and look at the type of the target
  only.
\<close>

fun ReplicasNotMatchError_Is :: "ReplicasNotMatchError \<Rightarrow> go_error option \<Rightarrow> bool" where
  "ReplicasNotMatchError_Is e err =
     (let ok1 = (case err of Some (RNMVal _) \<Rightarrow> True | _ \<Rightarrow> False);
          ok2 = (case err of Some (RNMPtr _) \<Rightarrow> True | _ \<Rightarrow> False)
      in ok1 \<or> ok2)"

fun TooManyReplicaGroupsError_Is :: "TooManyReplicaGroupsError \<Rightarrow> go_error option \<Rightarrow> bool" where
  "TooManyReplicaGroupsError_Is e err =
     (let ok1 = (case err of Some (TMGVal _) \<Rightarrow> True | _ \<Rightarrow> False);
          ok2 = (case err of Some (TMGPtr _) \<Rightarrow> True | _ \<Rightarrow> False)
      in ok1 \<or> ok2)"

text \<open>
  The call \<^verbatim>\<open>x.Is(target)\<close> that \<^verbatim>\<open>errors.Is\<close> makes when the error has the method.
  Through a pointer the receiver is the struct pointed to, and the call panics on a nil
  pointer. The result is \<^const>\<open>None\<close> for an error without the method.
\<close>

fun call_Is :: "go_error \<Rightarrow> go_error option \<Rightarrow> (panic + bool) option" where
  "call_Is (RNMVal e) target = Some (Inr (ReplicasNotMatchError_Is e target))"
| "call_Is (RNMPtr NilPtr) target = Some (Inl NilDereference)"
| "call_Is (RNMPtr (Ptr a e)) target = Some (Inr (ReplicasNotMatchError_Is e target))"
| "call_Is (TMGVal e) target = Some (Inr (TooManyReplicaGroupsError_Is e target))"
| "call_Is (TMGPtr NilPtr) target = Some (Inl NilDereference)"
| "call_Is (TMGPtr (Ptr a e)) target = Some (Inr (TooManyReplicaGroupsError_Is e target))"
| "call_Is (OtherError n) target = None"

text \<open>
  \<^verbatim>\<open>errors.Is\<close> of the standard library. Every type of \<^typ>\<open>go_error\<close> is comparable,
  and none has an \<^verbatim>\<open>Unwrap\<close> method, so the loop over the chain of wrapped errors ends
  after the first round.
\<close>

definition errors_Is :: "go_error option \<Rightarrow> go_error option \<Rightarrow> panic + bool" where
  "errors_Is err target =
     (case (err, target) of
        (Some e, Some t) \<Rightarrow>
          (if error_eq e t then Inr True
           else (case call_Is e target of
                   Some (Inl p) \<Rightarrow> Inl p
                 | Some (Inr True) \<Rightarrow> Inr True
                 | _ \<Rightarrow> Inr False))
      | _ \<Rightarrow> Inr (err = target))"

subsection \<open>The KV client\<close>

text \<open>
  Modelled from the spec: the KV client (\<^verbatim>\<open>kv.Client\<close>, whose code is not among the
  sources) offers \<^verbatim>\<open>List\<close>, \<^verbatim>\<open>Get\<close>, \<^verbatim>\<open>Delete\<close> and \<^verbatim>\<open>CAS\<close>. \<^verbatim>\<open>CAS\<close> calls the mutator
  on the stored value; a nil result with no error means that no change is needed, a
  non-nil result is persisted atomically, and an error of the mutator is handed back with
  nothing written. The retry flag only matters under contention, and the model is of one
  process with no concurrent writer, so the flag is not read. The client keeps the stored
  descriptors by key, the list of the operations issued so far, and an oracle telling which
  operations (by their position in that list) fail with a transient error of the backend.
\<close>

datatype kv_op = OpList | OpGet string | OpDelete string | OpCAS string

record kv_client =
  kvdata :: "(string \<times> ReplicaDesc) list"
  kvops :: "kv_op list"
  kvfail :: "nat \<Rightarrow> bool"

type_synonym mutator = "kv_value \<Rightarrow> panic + (ReplicaDesc option \<times> bool \<times> go_error option)"

definition kv_fails :: "kv_client \<Rightarrow> bool" where
  "kv_fails cl = kvfail cl (length (kvops cl))"

definition kv_error :: "kv_client \<Rightarrow> go_error" where
  "kv_error cl = OtherError (length (kvops cl))"

definition kv_issue :: "kv_op \<Rightarrow> kv_client \<Rightarrow> kv_client" where
  "kv_issue op cl = cl\<lparr>kvops := kvops cl @ [op]\<rparr>"

definition kv_List :: "kv_client \<Rightarrow> (go_error + string list) \<times> kv_client" where
  "kv_List cl =
     (if kv_fails cl then (Inl (kv_error cl), kv_issue OpList cl)
      else (Inr (map fst (kvdata cl)), kv_issue OpList cl))"

definition kv_Get :: "string \<Rightarrow> kv_client \<Rightarrow> (go_error + kv_value) \<times> kv_client" where
  "kv_Get key cl =
     (if kv_fails cl then (Inl (kv_error cl), kv_issue (OpGet key) cl)
      else (Inr (case map_of (kvdata cl) key of None \<Rightarrow> NilValue | Some d \<Rightarrow> DescPtr d),
            kv_issue (OpGet key) cl))"

definition kv_Delete :: "string \<Rightarrow> kv_client \<Rightarrow> go_error option \<times> kv_client" where
  "kv_Delete key cl =
     (if kv_fails cl then (Some (kv_error cl), kv_issue (OpDelete key) cl)
      else (None, kv_issue (OpDelete key) (cl\<lparr>kvdata := AList.delete key (kvdata cl)\<rparr>)))"

definition kv_CAS :: "string \<Rightarrow> mutator \<Rightarrow> kv_client \<Rightarrow> panic + (go_error option \<times> kv_client)" where
  "kv_CAS key f cl =
     (if kv_fails cl then Inr (Some (kv_error cl), kv_issue (OpCAS key) cl)
      else
        (case f (case map_of (kvdata cl) key of None \<Rightarrow> NilValue | Some d \<Rightarrow> DescPtr d) of
           Inl p \<Rightarrow> Inl p
         | Inr (out, retry, err) \<Rightarrow>
             (case err of
                Some e \<Rightarrow> Inr (Some e, kv_issue (OpCAS key) cl)
              | None \<Rightarrow>
                  (case out of
                     None \<Rightarrow> Inr (None, kv_issue (OpCAS key) cl)
                   | Some d \<Rightarrow>
                       Inr (None, kv_issue (OpCAS key)
                                    (cl\<lparr>kvdata := AList.update key d (kvdata cl)\<rparr>))))))"

subsection \<open>The tracker\<close>

text \<open>
  The tracker's state: its configuration, the jitter that \<^verbatim>\<open>NewHATracker\<close> draws once
  (\<^verbatim>\<open>rand.Int63n(2*max) - max\<close> for a positive maximum, zero otherwise), the limits
  collaborator (\<^const>\<open>None\<close> for a nil interface), the KV client, the two maps of the local
  cache and the metrics. A counter vector is a map from label values to a count, a gauge
  vector a map to the integer that the code converts to a \<^verbatim>\<open>float64\<close>; the histogram of
  propagation times, which reads the wall clock and observes a float, is left out. The
  logger is the list of the lines written.
\<close>

datatype log_level = Info | Warn | Error

record HATracker =
  cfg :: HATrackerConfig
  updateTimeoutJitter :: Duration
  limits :: "(string \<Rightarrow> int) option"
  client :: kv_client
  elected :: "string \<rightharpoonup> ReplicaDesc"
  replicaGroups :: "string \<rightharpoonup> string fset"
  electedReplicaChanges :: "(string \<times> string) \<rightharpoonup> nat"
  electedReplicaTimestamp :: "(string \<times> string) \<rightharpoonup> int"
  kvCASCalls :: "(string \<times> string) \<rightharpoonup> nat"
  cleanupRuns :: nat
  replicasMarkedForDeletion :: nat
  deletedReplicas :: nat
  markingForDeletionsFailed :: nat
  logger :: "(log_level \<times> string) list"

definition Inc :: "('l \<rightharpoonup> nat) \<Rightarrow> 'l \<Rightarrow> ('l \<rightharpoonup> nat)" where
  "Inc vec l = vec(l \<mapsto> (case vec l of None \<Rightarrow> 1 | Some n \<Rightarrow> n + 1))"

definition Log :: "log_level \<Rightarrow> string \<Rightarrow> HATracker \<Rightarrow> HATracker" where
  "Log lvl msg c = c\<lparr>logger := logger c @ [(lvl, msg)]\<rparr>"

text \<open>
  \<^verbatim>\<open>NewHATracker\<close>. The jitter is \<^verbatim>\<open>rand.Int63n(int64(2*max)) - max\<close> when the maximum is
  positive and zero otherwise; \<open>Int63n\<close> is the random source, a parameter, and the call
  panics when its argument is not positive. The maps and the metrics start empty (the
  registration of the metrics is not modelled). When tracking is enabled the client is the
  one made by \<^verbatim>\<open>kv.NewClient\<close>, whose code is not among the sources and which is a
  parameter; its error is the only error returned. When tracking is disabled the field
  \<^verbatim>\<open>client\<close> stays nil and is never used; here it holds \<open>nilClient\<close>, a client with no
  data whose every operation fails. The constructor does not call \<^verbatim>\<open>Validate\<close>.
\<close>

definition nilClient :: kv_client where
  "nilClient = \<lparr>kvdata = [], kvops = [], kvfail = (\<lambda>i. True)\<rparr>"

definition NewHATracker ::
  "HATrackerConfig \<Rightarrow> (string \<Rightarrow> int) option \<Rightarrow> (int64 \<Rightarrow> int64) \<Rightarrow>
     (kv_Config \<Rightarrow> go_error + kv_client) \<Rightarrow> panic + (go_error + HATracker)" where
  "NewHATracker config lim Int63n NewClient =
     (if 0 <s UpdateTimeoutJitterMax config \<and> 2 * UpdateTimeoutJitterMax config \<le>s 0
      then Inl InvalidArgument
      else
        let jitter = (if 0 <s UpdateTimeoutJitterMax config
                      then Int63n (2 * UpdateTimeoutJitterMax config) - UpdateTimeoutJitterMax config
                      else 0);
            t = \<lparr>cfg = config, updateTimeoutJitter = jitter, limits = lim, client = nilClient,
                 elected = Map.empty, replicaGroups = Map.empty,
                 electedReplicaChanges = Map.empty, electedReplicaTimestamp = Map.empty,
                 kvCASCalls = Map.empty, cleanupRuns = 0, replicasMarkedForDeletion = 0,
                 deletedReplicas = 0, markingForDeletionsFailed = 0, logger = []\<rparr>
        in if EnableHATracker config
           then (case NewClient (KVStore config) of
                   Inl err \<Rightarrow> Inr (Inl err)
                 | Inr cl \<Rightarrow> Inr (Inr (t\<lparr>client := cl\<rparr>)))
           else Inr (Inr t))"

subsection \<open>The watch callback\<close>

text \<open>
  \<^verbatim>\<open>strings.Cut\<close>: the text before and after the first occurrence of the separator, and
  whether it occurs.
\<close>

fun cutAt :: "string \<Rightarrow> string \<Rightarrow> (string \<times> string) option" where
  "cutAt sep [] = (if sep = [] then Some ([], []) else None)"
| "cutAt sep (x # xs) =
     (if take (length sep) (x # xs) = sep then Some ([], drop (length sep) (x # xs))
      else (case cutAt sep xs of None \<Rightarrow> None | Some (before, after) \<Rightarrow> Some (x # before, after)))"

definition strings_Cut :: "string \<Rightarrow> string \<Rightarrow> string \<times> string \<times> bool" where
  "strings_Cut s sep =
     (case cutAt sep s of None \<Rightarrow> (s, [], False) | Some (before, after) \<Rightarrow> (before, after, True))"

text \<open>Reading a Go map gives the zero value and \<^verbatim>\<open>false\<close> for a missing key.\<close>

definition zeroReplicaDesc :: ReplicaDesc where
  "zeroReplicaDesc = \<lparr>Replica = [], ReceivedAt = 0, DeletedAt = 0\<rparr>"

definition lookupElected :: "HATracker \<Rightarrow> string \<Rightarrow> ReplicaDesc \<times> bool" where
  "lookupElected c key =
     (case elected c key of None \<Rightarrow> (zeroReplicaDesc, False) | Some e \<Rightarrow> (e, True))"

text \<open>The part of the callback that runs when the notified descriptor is a tombstone.\<close>

definition dropReplica :: "string \<Rightarrow> string \<Rightarrow> string \<Rightarrow> HATracker \<Rightarrow> HATracker" where
  "dropReplica key user cluster c =
     c\<lparr>elected := (elected c)(key := None),
       electedReplicaChanges := (electedReplicaChanges c)((user, cluster) := None),
       electedReplicaTimestamp := (electedReplicaTimestamp c)((user, cluster) := None),
       replicaGroups :=
         (case replicaGroups c user of
            None \<Rightarrow> replicaGroups c
          | Some userClusters \<Rightarrow>
              (if fcard (userClusters |-| {|cluster|}) = 0
               then (replicaGroups c)(user := None)
               else (replicaGroups c)(user \<mapsto> userClusters |-| {|cluster|})))\<rparr>"

text \<open>The part that runs for any other descriptor.\<close>

definition installReplica :: "string \<Rightarrow> string \<Rightarrow> string \<Rightarrow> ReplicaDesc \<Rightarrow> HATracker \<Rightarrow> HATracker" where
  "installReplica key user cluster replica c =
     (let (entry, exists) = lookupElected c key in
      c\<lparr>electedReplicaChanges :=
          (if Replica replica \<noteq> Replica entry
           then Inc (electedReplicaChanges c) (user, cluster)
           else electedReplicaChanges c),
        replicaGroups :=
          (if \<not> exists
           then (case replicaGroups c user of
                   None \<Rightarrow> (replicaGroups c)(user \<mapsto> {|cluster|})
                 | Some userClusters \<Rightarrow> (replicaGroups c)(user \<mapsto> finsert cluster userClusters))
           else replicaGroups c),
        elected := (elected c)(key \<mapsto> replica),
        electedReplicaTimestamp :=
          (electedReplicaTimestamp c)((user, cluster) \<mapsto> sint (ReceivedAt replica) sdiv 1000)\<rparr>)"

text \<open>
  The function passed to \<^verbatim>\<open>WatchPrefix\<close>. The type assertion panics unless the value is a
  \<^verbatim>\<open>*ReplicaDesc\<close>, and reading a field of a nil one panics. The callback always asks
  for the watch to go on.
\<close>

definition watchCallback :: "string \<Rightarrow> kv_value \<Rightarrow> HATracker \<Rightarrow> panic + (bool \<times> HATracker)" where
  "watchCallback key val c =
     (if val = NilValue \<or> val = Foreign then Inl TypeAssertion
      else
        let (user, cluster, keyHasSeparator) = strings_Cut key ''/'' in
        if \<not> keyHasSeparator then Inr (True, c)
        else
          (case val of
             DescPtr replica \<Rightarrow>
               if 0 <s DeletedAt replica then Inr (True, dropReplica key user cluster c)
               else Inr (True, installReplica key user cluster replica c)
           | _ \<Rightarrow> Inl NilDereference))"

text \<open>A sequence of notifications, delivered in order; a panic ends the process.\<close>

fun watchAll :: "(string \<times> kv_value) list \<Rightarrow> HATracker \<Rightarrow> panic + HATracker" where
  "watchAll [] c = Inr c"
| "watchAll ((key, val) # evs) c =
     (case watchCallback key val c of
        Inl p \<Rightarrow> Inl p
      | Inr (cont, c') \<Rightarrow> watchAll evs c')"

text \<open>The groups known for a tenant: a missing tenant reads as the nil map, which is empty.\<close>

definition groupsOf :: "HATracker \<Rightarrow> string \<Rightarrow> string fset" where
  "groupsOf c user = (case replicaGroups c user of None \<Rightarrow> {||} | Some gs \<Rightarrow> gs)"

subsection \<open>The admission check\<close>

text \<open>
  The mutator that \<^verbatim>\<open>checkKVStore\<close> hands to \<^verbatim>\<open>CAS\<close>. Its result is the value to write
  (if any), the retry flag and the error. The type assertion succeeds on a nil
  \<^verbatim>\<open>*ReplicaDesc\<close>, whose field the condition then reads.
\<close>

definition checkKVStore_mutator ::
  "HATrackerConfig \<Rightarrow> Duration \<Rightarrow> string \<Rightarrow> Time \<Rightarrow> mutator" where
  "checkKVStore_mutator config jitter replica now inp =
     (let fresh = Inr (Some \<lparr>Replica = replica, ReceivedAt = timestamp_FromTime now, DeletedAt = 0\<rparr>,
                       True, None)
      in case inp of
           NilDesc \<Rightarrow> Inl NilDereference
         | DescPtr desc \<Rightarrow>
             if DeletedAt desc = 0 then
               if Replica desc = replica \<and>
                  time_Sub now (timestamp_Time (ReceivedAt desc)) <s UpdateTimeout config + jitter
               then Inr (None, False, None)
               else if Replica desc \<noteq> replica \<and>
                       time_Sub now (timestamp_Time (ReceivedAt desc)) <s FailoverTimeout config
               then Inr (None, False,
                         Some (RNMVal \<lparr>err_replica = replica, err_elected = Replica desc\<rparr>))
               else fresh
             else fresh
         | _ \<Rightarrow> fresh)"

definition checkKVStore ::
  "string \<Rightarrow> string \<Rightarrow> Time \<Rightarrow> HATracker \<Rightarrow> panic + (go_error option \<times> HATracker)" where
  "checkKVStore key replica now c =
     (case kv_CAS key (checkKVStore_mutator (cfg c) (updateTimeoutJitter c) replica now) (client c) of
        Inl p \<Rightarrow> Inl p
      | Inr (err, cl) \<Rightarrow> Inr (err, c\<lparr>client := cl\<rparr>))"

text \<open>
  \<^verbatim>\<open>CheckReplica\<close>. Its last part, from the call of \<^verbatim>\<open>checkKVStore\<close> on, is reached from
  three places of the conditions before it, and is a definition of its own here.
\<close>

definition CheckReplica_slowPath ::
  "string \<Rightarrow> string \<Rightarrow> string \<Rightarrow> Time \<Rightarrow> HATracker \<Rightarrow> panic + (go_error option \<times> HATracker)" where
  "CheckReplica_slowPath userID replicaGroup replica now c =
     (case checkKVStore (userID @ ''/'' @ replicaGroup) replica now c of
        Inl p \<Rightarrow> Inl p
      | Inr (err, c1) \<Rightarrow>
          let c2 = c1\<lparr>kvCASCalls := Inc (kvCASCalls c1) (userID, replicaGroup)\<rparr> in
          (case err of
             None \<Rightarrow> Inr (None, c2)
           | Some e \<Rightarrow>
               (case errors_Is err (Some (RNMVal \<lparr>err_replica = [], err_elected = []\<rparr>)) of
                  Inl p \<Rightarrow> Inl p
                | Inr matches \<Rightarrow>
                    if \<not> matches then Inr (err, Log Error ''rejecting sample'' c2)
                    else Inr (err, c2))))"

definition CheckReplica ::
  "string \<Rightarrow> string \<Rightarrow> string \<Rightarrow> Time \<Rightarrow> HATracker \<Rightarrow> panic + (go_error option \<times> HATracker)" where
  "CheckReplica userID replicaGroup replica now c =
     (if \<not> EnableHATracker (cfg c) then Inr (None, c)
      else
        let key = userID @ ''/'' @ replicaGroup;
            (entry, ok) = lookupElected c key;
            groups = int (fcard (groupsOf c userID))
        in
        if ok \<and> time_Sub now (timestamp_Time (ReceivedAt entry))
                   <s UpdateTimeout (cfg c) + updateTimeoutJitter c
        then (if Replica entry \<noteq> replica
              then Inr (Some (RNMVal \<lparr>err_replica = replica, err_elected = Replica entry\<rparr>), c)
              else Inr (None, c))
        else if \<not> ok then
          (case limits c of
             None \<Rightarrow> CheckReplica_slowPath userID replicaGroup replica now c
           | Some MaxHAReplicaGroups \<Rightarrow>
               let limit = MaxHAReplicaGroups userID in
               if 0 < limit \<and> groups + 1 > limit
               then Inr (Some (TMGVal \<lparr>err_limit = limit\<rparr>), c)
               else CheckReplica_slowPath userID replicaGroup replica now c)
        else CheckReplica_slowPath userID replicaGroup replica now c)"

subsection \<open>The cleanup sweep\<close>

definition cleanupCyclePeriod :: Duration where
  "cleanupCyclePeriod = 30 * Minute"

definition deletionTimeout :: Duration where
  "deletionTimeout = 30 * Minute"

text \<open>
  The mutator of the sweep's \<^verbatim>\<open>CAS\<close>. It closes over \<open>desc\<close>, the descriptor read by \<^verbatim>\<open>Get\<close>
  before the \<^verbatim>\<open>CAS\<close>, and over the deadline; \<open>d\<close> is the descriptor stored when the
  mutator runs, and \<open>wall\<close> is the reading of \<^verbatim>\<open>time.Now()\<close>.
\<close>

definition cleanup_mutator :: "ReplicaDesc \<Rightarrow> Time \<Rightarrow> Time \<Rightarrow> mutator" where
  "cleanup_mutator desc deadline wall inp =
     (case inp of
        DescPtr d \<Rightarrow>
          if 0 <s DeletedAt d \<or> \<not> time_Before (timestamp_Time (ReceivedAt desc)) deadline
          then Inr (None, False, None)
          else Inr (Some (d\<lparr>DeletedAt := timestamp_FromTime wall\<rparr>), True, None)
      | _ \<Rightarrow> Inr (None, False, None))"

text \<open>The body of the loop over the keys, after the check of the context.\<close>

definition cleanupKey :: "Time \<Rightarrow> Time \<Rightarrow> string \<Rightarrow> HATracker \<Rightarrow> panic + HATracker" where
  "cleanupKey deadline wall key c =
     (let (res, cl) = kv_Get key (client c); c1 = c\<lparr>client := cl\<rparr> in
      case res of
        Inl err \<Rightarrow> Inr (Log Warn ''cleanup: failed to get replica value'' c1)
      | Inr val \<Rightarrow>
          (case val of
             NilDesc \<Rightarrow> Inl NilDereference
           | DescPtr desc \<Rightarrow>
               if 0 <s DeletedAt desc then
                 if time_After (timestamp_Time (DeletedAt desc)) deadline then Inr c1
                 else
                   (let (err, cl2) = kv_Delete key (client c1); c2 = c1\<lparr>client := cl2\<rparr> in
                    case err of
                      Some e \<Rightarrow>
                        Inr ((Log Error ''cleanup: failed to delete old replica'' c2)
                               \<lparr>markingForDeletionsFailed := markingForDeletionsFailed c2 + 1\<rparr>)
                    | None \<Rightarrow>
                        Inr ((Log Info ''cleanup: deleted old replica'' c2)
                               \<lparr>deletedReplicas := deletedReplicas c2 + 1\<rparr>))
               else if DeletedAt desc = 0 \<and> time_Before (timestamp_Time (ReceivedAt desc)) deadline
               then
                 (case kv_CAS key (cleanup_mutator desc deadline wall) (client c1) of
                    Inl p \<Rightarrow> Inl p
                  | Inr (err, cl2) \<Rightarrow>
                      let c2 = c1\<lparr>client := cl2\<rparr> in
                      (case err of
                         Some e \<Rightarrow>
                           Inr (Log Error ''cleanup: failed to mark replica as deleted''
                                  (c2\<lparr>markingForDeletionsFailed := markingForDeletionsFailed c2 + 1\<rparr>))
                       | None \<Rightarrow>
                           Inr (Log Info ''cleanup: marked replica as deleted''
                                  (c2\<lparr>replicasMarkedForDeletion := replicasMarkedForDeletion c2 + 1\<rparr>))))
               else Inr c1
           | _ \<Rightarrow> Inr (Log Error ''cleanup: got invalid replica descriptor'' c1)))"

text \<open>
  The loop. \<open>ctxErr i\<close> tells whether the context is found cancelled at the start of
  round \<open>i\<close>, and \<open>wall i\<close> is the wall clock in that round.
\<close>

fun cleanupKeys ::
  "(nat \<Rightarrow> bool) \<Rightarrow> Time \<Rightarrow> (nat \<Rightarrow> Time) \<Rightarrow> nat \<Rightarrow> string list \<Rightarrow> HATracker \<Rightarrow> panic + HATracker" where
  "cleanupKeys ctxErr deadline wall i [] c = Inr c"
| "cleanupKeys ctxErr deadline wall i (key # keys) c =
     (if ctxErr i then Inr c
      else (case cleanupKey deadline (wall i) key c of
              Inl p \<Rightarrow> Inl p
            | Inr c' \<Rightarrow> cleanupKeys ctxErr deadline wall (Suc i) keys c'))"

definition cleanupOldReplicas ::
  "(nat \<Rightarrow> bool) \<Rightarrow> Time \<Rightarrow> (nat \<Rightarrow> Time) \<Rightarrow> HATracker \<Rightarrow> panic + HATracker" where
  "cleanupOldReplicas ctxErr deadline wall c =
     (let (res, cl) = kv_List (client c); c1 = c\<lparr>client := cl\<rparr> in
      case res of
        Inl err \<Rightarrow> Inr (Log Warn ''cleanup: failed to list replica keys'' c1)
      | Inr keys \<Rightarrow> cleanupKeys ctxErr deadline wall 0 keys c1)"

text \<open>One tick of \<^verbatim>\<open>cleanupOldReplicasLoop\<close>, at the time \<open>t\<close> read from the ticker.\<close>

definition cleanupTick ::
  "(nat \<Rightarrow> bool) \<Rightarrow> Time \<Rightarrow> (nat \<Rightarrow> Time) \<Rightarrow> HATracker \<Rightarrow> panic + HATracker" where
  "cleanupTick ctxErr t wall c =
     cleanupOldReplicas ctxErr (time_Add t (- deletionTimeout)) wall
       (c\<lparr>cleanupRuns := cleanupRuns c + 1\<rparr>)"

subsection \<open>Example states\<close>

text \<open>
  The configuration of the end-to-end scenarios (update timeout 15 s, no jitter, failover
  timeout 30 s), a client whose backend never fails, and a tracker over it with an empty
  cache.
\<close>

definition exampleConfig :: HATrackerConfig where
  "exampleConfig =
     \<lparr>EnableHATracker = True, UpdateTimeout = 15000000000, UpdateTimeoutJitterMax = 0,
      FailoverTimeout = 30000000000, KVStore = \<lparr>Store = ''consul''\<rparr>\<rparr>"

definition exampleClient :: "(string \<times> ReplicaDesc) list \<Rightarrow> kv_client" where
  "exampleClient kvs = \<lparr>kvdata = kvs, kvops = [], kvfail = (\<lambda>i. False)\<rparr>"

definition exampleTracker :: "(string \<Rightarrow> int) option \<Rightarrow> (string \<times> ReplicaDesc) list \<Rightarrow> HATracker" where
  "exampleTracker lim kvs =
     \<lparr>cfg = exampleConfig, updateTimeoutJitter = 0, limits = lim, client = exampleClient kvs,
      elected = Map.empty, replicaGroups = Map.empty, electedReplicaChanges = Map.empty,
      electedReplicaTimestamp = Map.empty, kvCASCalls = Map.empty, cleanupRuns = 0,
      replicasMarkedForDeletion = 0, deletedReplicas = 0, markingForDeletionsFailed = 0,
      logger = []\<rparr>"

text \<open>The same tracker after it has seen replica \<open>R1\<close> elected for \<open>u1/c1\<close> at time 0.\<close>

definition electedR1 :: ReplicaDesc where
  "electedR1 = \<lparr>Replica = ''R1'', ReceivedAt = 0, DeletedAt = 0\<rparr>"

definition exampleTrackerR1 :: "(string \<Rightarrow> int) option \<Rightarrow> HATracker" where
  "exampleTrackerR1 lim =
     (exampleTracker lim [(''u1/c1'', electedR1)])
       \<lparr>elected := [''u1/c1'' \<mapsto> electedR1], replicaGroups := [''u1'' \<mapsto> {|''c1''|}]\<rparr>"


text \<open>The descriptor of \<open>u1/c1\<close> after a peer has refreshed it at 2800 s.\<close>

definition refreshedR1 :: ReplicaDesc where
  "refreshedR1 = \<lparr>Replica = ''R1'', ReceivedAt = 2800000, DeletedAt = 0\<rparr>"

subsection \<open>Reading the cache and the counters\<close>

text \<open>The value of a counter of a vector: zero for a label that has no series.\<close>

definition counterValue :: "('l \<rightharpoonup> nat) \<Rightarrow> 'l \<Rightarrow> nat" where
  "counterValue vec l = (case vec l of None \<Rightarrow> 0 | Some n \<Rightarrow> n)"

text \<open>
  The invariant of the cache: no cached descriptor is a tombstone, no tenant has an empty
  set of groups, and the groups of a tenant are those whose key is cached (a tenant whose
  name contains the separator has none).
\<close>

definition cacheInv :: "HATracker \<Rightarrow> bool" where
  "cacheInv c =
     ((\<forall>key d. elected c key = Some d \<longrightarrow> \<not> 0 <s DeletedAt d)
      \<and> (\<forall>u. replicaGroups c u \<noteq> Some {||})
      \<and> (\<forall>u g. g |\<in>| groupsOf c u \<longleftrightarrow> CHR ''/'' \<notin> set u \<and> elected c (u @ ''/'' @ g) \<noteq> None))"

text \<open>
  Three notifications: \<open>R1\<close> elected for \<open>u1/c1\<close>, \<open>R2\<close> elected for \<open>u1/c2\<close>, and the
  tombstone of \<open>u1/c1\<close>.
\<close>

definition exampleEvents :: "(string \<times> kv_value) list" where
  "exampleEvents =
     [(''u1/c1'', DescPtr electedR1),
      (''u1/c2'', DescPtr \<lparr>Replica = ''R2'', ReceivedAt = 1000, DeletedAt = 0\<rparr>),
      (''u1/c1'', DescPtr \<lparr>Replica = ''R1'', ReceivedAt = 0, DeletedAt = 1860000\<rparr>)]"

section \<open>Properties\<close>

subsection \<open>Facts about time\<close>

lemma timestamp_Time_eq: "timestamp_Time t = sint t * 1000000"
proof -
  have "(sint t sdiv 1000 * 1000 + sint t smod 1000) * 1000000 = sint t * 1000000"
    by (simp only: sdiv_mult_smod_eq)
  then show ?thesis
    by (simp add: timestamp_Time_def time_Unix_def algebra_simps)
qed

lemma sint_word_of_int_64:
  "- 9223372036854775808 \<le> k \<Longrightarrow> k \<le> 9223372036854775807 \<Longrightarrow> sint (word_of_int k :: 64 word) = k"
proof -
  assume a: "- 9223372036854775808 \<le> k" and b: "k \<le> 9223372036854775807"
  have "sint (word_of_int k :: 64 word) = signed_take_bit (LENGTH(64) - 1) k"
    by (rule sint_sbintrunc')
  also have "\<dots> = k"
    using a b by (intro signed_take_bit_int_eq_self) simp_all
  finally show ?thesis .
qed

text \<open>Where the difference fits a duration, \<^const>\<open>time_Sub\<close> is the difference.\<close>

lemma time_Sub_sint:
  "minDuration \<le> t - u \<Longrightarrow> t - u \<le> maxDuration \<Longrightarrow> sint (time_Sub t u) = t - u"
  unfolding time_Sub_def minDuration_def maxDuration_def
  using sint_word_of_int_64 [of "t - u"] by (simp del: of_int_diff)

lemma timestamp_FromTime_eq: "timestamp_FromTime t = word_of_int (t div 1000000)"
proof -
  define q r where "q = t div 1000000000" and "r = t mod 1000000000"
  have t: "t = q * 1000 * 1000000 + r"
    by (simp add: q_def r_def)
  have "(q * 1000 * 1000000 + r) div 1000000 = q * 1000 + r div 1000000"
    by (rule div_mult_self3) simp
  then have "t div 1000000 = q * 1000 + r div 1000000"
    by (simp only: t [symmetric])
  then show ?thesis
    by (simp add: timestamp_FromTime_def q_def r_def)
qed


subsection \<open>Validation\<close>

text \<open>
  Claim C7, as stated, fails in its last part: \<^verbatim>\<open>Validate\<close> returns an error for the
  configuration whose failover timeout of 10 s is less than the update timeout of 15 s
  plus one second, and \<^verbatim>\<open>NewHATracker\<close> builds an enabled tracker from this configuration
  all the same, with no error.
\<close>

theorem NewHATracker_invalid_config_counterexample:
  "Validate (exampleConfig\<lparr>FailoverTimeout := 10000000000\<rparr>) \<noteq> None
   \<and> (\<exists>t. NewHATracker (exampleConfig\<lparr>FailoverTimeout := 10000000000\<rparr>) None (\<lambda>n. 0)
             (\<lambda>k. Inr (exampleClient [])) = Inr (Inr t)
          \<and> cfg t = exampleConfig\<lparr>FailoverTimeout := 10000000000\<rparr>
          \<and> EnableHATracker (cfg t)
          \<and> client t = exampleClient [])"
  by (simp add: Validate_def NewHATracker_def exampleConfig_def Second_def Let_def)

text \<open>
  Claim C7, amended. \<^verbatim>\<open>HATrackerConfig.Validate\<close> returns an error if and only if the
  maximum jitter is negative, or the failover timeout is less than the update timeout plus
  the maximum jitter plus one second (the sum being the \<^verbatim>\<open>Duration\<close> sum that the code
  computes), or the backend is neither \<open>consul\<close> nor \<open>etcd\<close>. \<^verbatim>\<open>Validate\<close> only reports
  the failure: the constructor \<^verbatim>\<open>NewHATracker\<close> does not call it, and builds a tracker with
  the given configuration and an empty cache whenever the random source can be asked for
  the jitter and, with tracking enabled, \<^verbatim>\<open>kv.NewClient\<close> succeeds; the only error it
  returns is the one of \<^verbatim>\<open>kv.NewClient\<close>. Refusing to start on a failed validation is left
  to the caller of \<^verbatim>\<open>Validate\<close>.
\<close>

theorem Validate_error_iff:
  "(Validate c \<noteq> None) =
     (UpdateTimeoutJitterMax c <s 0
      \<or> FailoverTimeout c <s UpdateTimeout c + UpdateTimeoutJitterMax c + Second
      \<or> (Store (KVStore c) \<noteq> ''consul'' \<and> Store (KVStore c) \<noteq> ''etcd''))
   \<and> (\<not> (0 <s UpdateTimeoutJitterMax c \<and> 2 * UpdateTimeoutJitterMax c \<le>s 0)
        \<and> (EnableHATracker c \<longrightarrow> NewClient (KVStore c) = Inr cl) \<longrightarrow>
        (\<exists>t. NewHATracker c lim Int63n NewClient = Inr (Inr t)
           \<and> cfg t = c \<and> elected t = Map.empty \<and> replicaGroups t = Map.empty))
   \<and> (NewHATracker c lim Int63n NewClient = Inr (Inl e) \<longrightarrow>
        EnableHATracker c \<and> NewClient (KVStore c) = Inl e)"
proof -
  have v: "(Validate c \<noteq> None) =
     (UpdateTimeoutJitterMax c <s 0
      \<or> FailoverTimeout c <s UpdateTimeout c + UpdateTimeoutJitterMax c + Second
      \<or> (Store (KVStore c) \<noteq> ''consul'' \<and> Store (KVStore c) \<noteq> ''etcd''))"
    by (simp add: Validate_def storeAllowedList_def Let_def)
  have b: "\<not> (0 <s UpdateTimeoutJitterMax c \<and> 2 * UpdateTimeoutJitterMax c \<le>s 0)
        \<and> (EnableHATracker c \<longrightarrow> NewClient (KVStore c) = Inr cl) \<longrightarrow>
        (\<exists>t. NewHATracker c lim Int63n NewClient = Inr (Inr t)
           \<and> cfg t = c \<and> elected t = Map.empty \<and> replicaGroups t = Map.empty)"
    by (auto simp: NewHATracker_def Let_def)
  have e: "NewHATracker c lim Int63n NewClient = Inr (Inl e) \<longrightarrow>
        EnableHATracker c \<and> NewClient (KVStore c) = Inl e"
    by (auto simp: NewHATracker_def Let_def split: if_splits sum.splits)
  from v b e show ?thesis by blast
qed

theorem Validate_error_iff_witness:
  "Validate exampleConfig = None
   \<and> Validate (exampleConfig\<lparr>KVStore := \<lparr>Store = ''memberlist''\<rparr>\<rparr>) \<noteq> None
   \<and> Validate (exampleConfig\<lparr>FailoverTimeout := 15999999999\<rparr>) \<noteq> None
   \<and> Validate (exampleConfig\<lparr>UpdateTimeoutJitterMax := - 1\<rparr>) \<noteq> None
   \<and> (\<exists>t. NewHATracker (exampleConfig\<lparr>FailoverTimeout := 15999999999\<rparr>) None (\<lambda>n. 0)
             (\<lambda>k. Inr (exampleClient [])) = Inr (Inr t)
          \<and> cfg t = exampleConfig\<lparr>FailoverTimeout := 15999999999\<rparr>)"
proof -
  have j: "\<not> (0 <s UpdateTimeoutJitterMax (exampleConfig\<lparr>FailoverTimeout := 15999999999\<rparr>)
              \<and> 2 * UpdateTimeoutJitterMax (exampleConfig\<lparr>FailoverTimeout := 15999999999\<rparr>) \<le>s 0)"
    by (simp add: exampleConfig_def)
  have n: "EnableHATracker (exampleConfig\<lparr>FailoverTimeout := 15999999999\<rparr>) \<longrightarrow>
      (\<lambda>k. Inr (exampleClient [])) (KVStore (exampleConfig\<lparr>FailoverTimeout := 15999999999\<rparr>))
        = (Inr (exampleClient []) :: go_error + kv_client)"
    by simp
  have built: "\<exists>t. NewHATracker (exampleConfig\<lparr>FailoverTimeout := 15999999999\<rparr>) None (\<lambda>n. 0)
             (\<lambda>k. Inr (exampleClient [])) = Inr (Inr t)
          \<and> cfg t = exampleConfig\<lparr>FailoverTimeout := 15999999999\<rparr>"
    using Validate_error_iff [of "exampleConfig\<lparr>FailoverTimeout := 15999999999\<rparr>"
        "\<lambda>k. Inr (exampleClient [])" "exampleClient []" None "\<lambda>n. 0"] j n
    by blast
  have vals: "Validate exampleConfig = None
   \<and> Validate (exampleConfig\<lparr>KVStore := \<lparr>Store = ''memberlist''\<rparr>\<rparr>) \<noteq> None
   \<and> Validate (exampleConfig\<lparr>FailoverTimeout := 15999999999\<rparr>) \<noteq> None
   \<and> Validate (exampleConfig\<lparr>UpdateTimeoutJitterMax := - 1\<rparr>) \<noteq> None"
    using Validate_error_iff [of exampleConfig, THEN conjunct1]
      Validate_error_iff [of "exampleConfig\<lparr>KVStore := \<lparr>Store = ''memberlist''\<rparr>\<rparr>", THEN conjunct1]
      Validate_error_iff [of "exampleConfig\<lparr>FailoverTimeout := 15999999999\<rparr>", THEN conjunct1]
      Validate_error_iff [of "exampleConfig\<lparr>UpdateTimeoutJitterMax := - 1\<rparr>", THEN conjunct1]
    by (simp add: exampleConfig_def Second_def)
  from vals built show ?thesis by blast
qed

text \<open>
  Where the sum of the three durations does not overflow, the comparison of the second
  condition is the comparison of the integers.
\<close>

lemma failover_bound_no_overflow:
  fixes ut jm ft :: Duration
  assumes "sint ut + sint jm + 1000000000 \<le> 9223372036854775807"
    and "- 9223372036854775808 \<le> sint ut + sint jm"
  shows "(ft <s ut + jm + Second) = (sint ft < sint ut + sint jm + 1000000000)"
proof -
  have "ut + jm + Second = word_of_int (sint ut + sint jm + 1000000000)"
    by (simp add: Second_def)
  moreover have "sint (word_of_int (sint ut + sint jm + 1000000000) :: 64 word)
      = sint ut + sint jm + 1000000000"
    using assms by (intro sint_word_of_int_64) simp_all
  ultimately show ?thesis
    by (simp only: word_sless_alt)
qed

subsection \<open>The fast path of the admission check\<close>

text \<open>
  Claim C1. With HA tracking enabled, when the cache holds an entry for the key
  \<open>tenant/replicaGroup\<close> and the time since the entry's \<^verbatim>\<open>ReceivedAt\<close> is strictly less
  than the update timeout plus the jitter, \<^verbatim>\<open>CheckReplica\<close> returns nil if the entry's
  replica is the requesting one, and otherwise a \<^verbatim>\<open>ReplicasNotMatchError\<close> carrying the
  rejected and the elected replica. The tracker is returned as it was: the client's list
  of issued operations has no new \<^verbatim>\<open>CAS\<close>, and the counter of \<^verbatim>\<open>CAS\<close> calls is untouched.
\<close>

theorem CheckReplica_fast_path:
  assumes "EnableHATracker (cfg c)"
    and "elected c (userID @ ''/'' @ replicaGroup) = Some entry"
    and "time_Sub now (timestamp_Time (ReceivedAt entry))
           <s UpdateTimeout (cfg c) + updateTimeoutJitter c"
  shows "CheckReplica userID replicaGroup replica now c =
           Inr (if Replica entry = replica then None
                else Some (RNMVal \<lparr>err_replica = replica, err_elected = Replica entry\<rparr>), c)"
  using assms by (simp add: CheckReplica_def lookupElected_def Let_def)

theorem CheckReplica_fast_path_witness:
  "CheckReplica ''u1'' ''c1'' ''R1'' 5000000000 (exampleTrackerR1 None) = Inr (None, exampleTrackerR1 None)
   \<and> CheckReplica ''u1'' ''c1'' ''R2'' 10000000000 (exampleTrackerR1 None) =
       Inr (Some (RNMVal \<lparr>err_replica = ''R2'', err_elected = ''R1''\<rparr>), exampleTrackerR1 None)"
  using CheckReplica_fast_path [of "exampleTrackerR1 None" "''u1''" "''c1''" electedR1 5000000000 "''R1''"]
    CheckReplica_fast_path [of "exampleTrackerR1 None" "''u1''" "''c1''" electedR1 10000000000 "''R2''"]
  by (simp add: exampleTrackerR1_def exampleTracker_def exampleConfig_def electedR1_def
      timestamp_Time_eq time_Sub_def maxDuration_def minDuration_def)

text \<open>
  Where neither the difference of the instants nor the sum of the durations overflows,
  the condition of the fast path is the comparison of the integers.
\<close>

lemma fast_path_condition_no_overflow:
  fixes ut j :: Duration
  assumes "minDuration \<le> now - timestamp_Time r" and "now - timestamp_Time r \<le> maxDuration"
    and "- 9223372036854775808 \<le> sint ut + sint j" and "sint ut + sint j \<le> 9223372036854775807"
  shows "(time_Sub now (timestamp_Time r) <s ut + j) = (now - sint r * 1000000 < sint ut + sint j)"
proof -
  have "ut + j = word_of_int (sint ut + sint j)"
    by simp
  moreover have "sint (word_of_int (sint ut + sint j) :: 64 word) = sint ut + sint j"
    using assms(3,4) by (rule sint_word_of_int_64)
  ultimately have "sint (ut + j) = sint ut + sint j"
    by simp
  then show ?thesis
    using time_Sub_sint [OF assms(1,2)] by (simp add: word_sless_alt timestamp_Time_eq)
qed

subsection \<open>Matching the typed errors\<close>

text \<open>
  Claim C10. \<^verbatim>\<open>errors.Is\<close> holds between any two \<^verbatim>\<open>ReplicasNotMatchError\<close> values,
  whatever their fields, and likewise when the error is a pointer to such a value or the
  target is a pointer (a nil one included); the same holds for
  \<^verbatim>\<open>TooManyReplicaGroupsError\<close>, whatever its limit; and an error of one of the two types
  never matches a target of the other.
\<close>

theorem typed_errors_Is:
  "errors_Is (Some (RNMVal e1)) (Some (RNMVal e2)) = Inr True
   \<and> errors_Is (Some (RNMVal e1)) (Some (RNMPtr q)) = Inr True
   \<and> errors_Is (Some (RNMPtr (Ptr a1 e1))) (Some (RNMVal e2)) = Inr True
   \<and> errors_Is (Some (RNMPtr (Ptr a1 e1))) (Some (RNMPtr q)) = Inr True
   \<and> errors_Is (Some (TMGVal t1)) (Some (TMGVal t2)) = Inr True
   \<and> errors_Is (Some (TMGVal t1)) (Some (TMGPtr q')) = Inr True
   \<and> errors_Is (Some (TMGPtr (Ptr a1 t1))) (Some (TMGVal t2)) = Inr True
   \<and> errors_Is (Some (TMGPtr (Ptr a1 t1))) (Some (TMGPtr q')) = Inr True
   \<and> errors_Is (Some (RNMVal e1)) (Some (TMGVal t2)) = Inr False
   \<and> errors_Is (Some (RNMVal e1)) (Some (TMGPtr q')) = Inr False
   \<and> errors_Is (Some (RNMPtr (Ptr a1 e1))) (Some (TMGVal t2)) = Inr False
   \<and> errors_Is (Some (RNMPtr (Ptr a1 e1))) (Some (TMGPtr q')) = Inr False
   \<and> errors_Is (Some (TMGVal t1)) (Some (RNMVal e2)) = Inr False
   \<and> errors_Is (Some (TMGVal t1)) (Some (RNMPtr q)) = Inr False
   \<and> errors_Is (Some (TMGPtr (Ptr a1 t1))) (Some (RNMVal e2)) = Inr False
   \<and> errors_Is (Some (TMGPtr (Ptr a1 t1))) (Some (RNMPtr q)) = Inr False"
  by (cases q; cases q') (simp_all add: errors_Is_def)

theorem typed_errors_Is_witness:
  "errors_Is (Some (RNMVal \<lparr>err_replica = ''R2'', err_elected = ''R1''\<rparr>))
             (Some (RNMVal \<lparr>err_replica = [], err_elected = []\<rparr>)) = Inr True
   \<and> errors_Is (Some (TMGVal \<lparr>err_limit = 1\<rparr>)) (Some (TMGPtr (Ptr 7 \<lparr>err_limit = 5\<rparr>))) = Inr True
   \<and> errors_Is (Some (RNMVal \<lparr>err_replica = ''R2'', err_elected = ''R1''\<rparr>))
               (Some (TMGVal \<lparr>err_limit = 1\<rparr>)) = Inr False"
  using typed_errors_Is [of "\<lparr>err_replica = ''R2'', err_elected = ''R1''\<rparr>"
      "\<lparr>err_replica = [], err_elected = []\<rparr>" NilPtr 0 "\<lparr>err_limit = 1\<rparr>" "\<lparr>err_limit = 1\<rparr>"
      "Ptr 7 \<lparr>err_limit = 5\<rparr>"]
  by blast

subsection \<open>The slow path of the admission check\<close>

lemma checkKVStore_mutator_error:
  "checkKVStore_mutator config jitter replica now inp = Inr (out, retry, Some e) \<Longrightarrow> \<exists>x. e = RNMVal x"
  by (auto simp: checkKVStore_mutator_def Let_def split: kv_value.splits if_splits)

lemma checkKVStore_mutator_no_panic:
  "inp \<noteq> NilDesc \<Longrightarrow> \<exists>out retry err. checkKVStore_mutator config jitter replica now inp = Inr (out, retry, err)"
  by (cases inp) (auto simp: checkKVStore_mutator_def Let_def)

lemma kv_CAS_error:
  "kv_CAS key f cl = Inr (Some e, cl') \<Longrightarrow>
     (\<exists>n. e = OtherError n) \<or> (\<exists>inp out retry. f inp = Inr (out, retry, Some e))"
  by (auto simp: kv_CAS_def kv_error_def split: if_splits sum.splits option.splits prod.splits)

lemma checkKVStore_error:
  "checkKVStore key replica now c = Inr (Some e, c') \<Longrightarrow> (\<exists>n. e = OtherError n) \<or> (\<exists>x. e = RNMVal x)"
  by (auto simp: checkKVStore_def split: sum.splits prod.splits
      dest!: kv_CAS_error checkKVStore_mutator_error)

lemma checkKVStore_frame:
  "checkKVStore key replica now c = Inr (err, c') \<Longrightarrow> \<exists>cl. c' = c\<lparr>client := cl\<rparr>"
  by (auto simp: checkKVStore_def split: sum.splits prod.splits)

lemma kv_CAS_checkKVStore_total:
  "\<exists>err cl'. kv_CAS key (checkKVStore_mutator config jitter replica now) cl = Inr (err, cl')"
proof -
  let ?inp = "case map_of (kvdata cl) key of None \<Rightarrow> NilValue | Some d \<Rightarrow> DescPtr d"
  have "?inp \<noteq> NilDesc" by (simp split: option.splits)
  then obtain out retry err
    where "checkKVStore_mutator config jitter replica now ?inp = Inr (out, retry, err)"
    using checkKVStore_mutator_no_panic by blast
  then show ?thesis
    by (auto simp: kv_CAS_def split: option.splits)
qed

lemma checkKVStore_total: "\<exists>err c'. checkKVStore key replica now c = Inr (err, c')"
  using kv_CAS_checkKVStore_total [of key "cfg c" "updateTimeoutJitter c" replica now "client c"]
  by (auto simp: checkKVStore_def)

lemma CheckReplica_slowPath_result:
  "\<exists>err cl c2. checkKVStore (userID @ ''/'' @ replicaGroup) replica now c = Inr (err, c\<lparr>client := cl\<rparr>)
     \<and> (err = None \<or> (\<exists>n. err = Some (OtherError n)) \<or> (\<exists>x. err = Some (RNMVal x)))
     \<and> CheckReplica_slowPath userID replicaGroup replica now c = Inr (err, c2)
     \<and> elected c2 = elected c \<and> replicaGroups c2 = replicaGroups c"
proof -
  obtain err c1 where r: "checkKVStore (userID @ ''/'' @ replicaGroup) replica now c = Inr (err, c1)"
    using checkKVStore_total by blast
  obtain cl where cl: "c1 = c\<lparr>client := cl\<rparr>"
    using checkKVStore_frame [OF r] by blast
  have k: "err = None \<or> (\<exists>n. err = Some (OtherError n)) \<or> (\<exists>x. err = Some (RNMVal x))"
  proof (cases err)
    case None
    then show ?thesis by simp
  next
    case (Some e)
    with r checkKVStore_error [of _ replica now c e c1] show ?thesis by simp
  qed
  show ?thesis
    using r k cl by (auto simp: CheckReplica_slowPath_def Let_def errors_Is_def Log_def)
qed

text \<open>
  Claim C9. For every input, \<^verbatim>\<open>CheckReplica\<close> returns with the two maps of the local cache,
  \<^verbatim>\<open>elected\<close> and \<^verbatim>\<open>replicaGroups\<close>, as they were: an admission check never installs an
  election in the cache itself. (The cleanup sweep does not write the maps either, see
  \<open>cleanupOldReplicas_cache_unchanged\<close> below; the watch callback is what does.)
\<close>

theorem CheckReplica_cache_unchanged:
  "\<exists>err c'. CheckReplica userID replicaGroup replica now c = Inr (err, c')
     \<and> elected c' = elected c \<and> replicaGroups c' = replicaGroups c"
  using CheckReplica_slowPath_result [of userID replicaGroup replica now c]
  by (auto simp: CheckReplica_def Let_def split: prod.splits option.splits)

theorem CheckReplica_cache_unchanged_witness:
  "\<exists>err c'. CheckReplica ''u1'' ''c1'' ''R1'' 20000000000 (exampleTrackerR1 None) = Inr (err, c')
     \<and> elected c' = elected (exampleTrackerR1 None)
     \<and> replicaGroups c' = replicaGroups (exampleTrackerR1 None)"
  using CheckReplica_cache_unchanged [of "''u1''" "''c1''" "''R1''" 20000000000 "exampleTrackerR1 None"]
  by blast

text \<open>
  Claim C4. With HA tracking enabled and the key not in the cache: if the limits
  collaborator returns a limit \<open>N > 0\<close> and the cached number of groups of the tenant plus
  one exceeds \<open>N\<close>, \<^verbatim>\<open>CheckReplica\<close> returns \<^verbatim>\<open>TooManyReplicaGroupsError{N}\<close> and the
  tracker as it was (no \<^verbatim>\<open>CAS\<close> is issued); if there is no limits collaborator, or the limit
  is zero or negative, the call returns an error that is not a
  \<^verbatim>\<open>TooManyReplicaGroupsError\<close>, or none.
\<close>

theorem CheckReplica_group_limit:
  assumes "EnableHATracker (cfg c)"
    and "elected c (userID @ ''/'' @ replicaGroup) = None"
  shows "(\<forall>M. limits c = Some M \<and> 0 < M userID \<and> int (fcard (groupsOf c userID)) + 1 > M userID \<longrightarrow>
            CheckReplica userID replicaGroup replica now c =
              Inr (Some (TMGVal \<lparr>err_limit = M userID\<rparr>), c))
       \<and> (limits c = None \<or> (\<exists>M. limits c = Some M \<and> M userID \<le> 0) \<longrightarrow>
            (\<exists>err c'. CheckReplica userID replicaGroup replica now c = Inr (err, c')
               \<and> (\<forall>l. errors_Is err (Some (TMGVal l)) = Inr False)))"
proof -
  obtain err cl c2 where
    k: "err = None \<or> (\<exists>n. err = Some (OtherError n)) \<or> (\<exists>x. err = Some (RNMVal x))"
    and s: "CheckReplica_slowPath userID replicaGroup replica now c = Inr (err, c2)"
    using CheckReplica_slowPath_result [of userID replicaGroup replica now c] by blast
  from k have "\<forall>l. errors_Is err (Some (TMGVal l)) = Inr False"
    by (auto simp: errors_Is_def)
  with s assms show ?thesis
    by (auto simp: CheckReplica_def Let_def lookupElected_def)
qed

theorem CheckReplica_group_limit_witness:
  "CheckReplica ''u1'' ''c2'' ''R1'' 0 (exampleTrackerR1 (Some (\<lambda>u. 1))) =
     Inr (Some (TMGVal \<lparr>err_limit = 1\<rparr>), exampleTrackerR1 (Some (\<lambda>u. 1)))
   \<and> (\<exists>err c'. CheckReplica ''u1'' ''c2'' ''R1'' 0 (exampleTrackerR1 (Some (\<lambda>u. 0))) = Inr (err, c')
         \<and> errors_Is err (Some (TMGVal \<lparr>err_limit = 0\<rparr>)) = Inr False)"
proof -
  have e: "EnableHATracker (cfg (exampleTrackerR1 lim))" for lim
    by (simp add: exampleTrackerR1_def exampleTracker_def exampleConfig_def)
  have n: "elected (exampleTrackerR1 lim) (''u1'' @ ''/'' @ ''c2'') = None" for lim
    by (simp add: exampleTrackerR1_def exampleTracker_def)
  have g: "fcard (groupsOf (exampleTrackerR1 lim) ''u1'') = 1" for lim
    by (simp add: exampleTrackerR1_def exampleTracker_def groupsOf_def fcard_finsert_if)
  have l: "limits (exampleTrackerR1 lim) = lim" for lim
    by (simp add: exampleTrackerR1_def exampleTracker_def)
  have "limits (exampleTrackerR1 (Some (\<lambda>u. 1))) = Some (\<lambda>u. 1) \<and> 0 < (1::int)
        \<and> int (fcard (groupsOf (exampleTrackerR1 (Some (\<lambda>u. 1))) ''u1'')) + 1 > 1"
    by (simp add: g l)
  then have first: "CheckReplica ''u1'' ''c2'' ''R1'' 0 (exampleTrackerR1 (Some (\<lambda>u. 1))) =
      Inr (Some (TMGVal \<lparr>err_limit = 1\<rparr>), exampleTrackerR1 (Some (\<lambda>u. 1)))"
    using CheckReplica_group_limit [OF e n, of "Some (\<lambda>u. 1)" "''R1''" 0] by blast
  have "\<exists>M. limits (exampleTrackerR1 (Some (\<lambda>u. 0))) = Some M \<and> M ''u1'' \<le> 0"
    by (simp add: l)
  then have second: "\<exists>err c'. CheckReplica ''u1'' ''c2'' ''R1'' 0 (exampleTrackerR1 (Some (\<lambda>u. 0))) = Inr (err, c')
         \<and> errors_Is err (Some (TMGVal \<lparr>err_limit = 0\<rparr>)) = Inr False"
    using CheckReplica_group_limit [OF e n, of "Some (\<lambda>u. 0)" "''R1''" 0] by blast
  from first second show ?thesis by blast
qed

subsection \<open>The mutator of the slow path\<close>

text \<open>
  Claim C2, as stated, fails: for a live stored descriptor of the requesting replica, read
  5 s after its \<^verbatim>\<open>ReceivedAt\<close> (within the update timeout of 15 s), the condition for a
  rejection does not hold, and the mutator does not write the fresh descriptor: it
  changes nothing.
\<close>

theorem checkKVStore_mutator_counterexample:
  "DeletedAt electedR1 = 0
   \<and> \<not> (Replica electedR1 \<noteq> ''R1'' \<and>
         time_Sub 5000000000 (timestamp_Time (ReceivedAt electedR1)) <s FailoverTimeout exampleConfig)
   \<and> checkKVStore_mutator exampleConfig 0 ''R1'' 5000000000 (DescPtr electedR1) = Inr (None, False, None)
   \<and> checkKVStore_mutator exampleConfig 0 ''R1'' 5000000000 (DescPtr electedR1) \<noteq>
       Inr (Some \<lparr>Replica = ''R1'', ReceivedAt = timestamp_FromTime 5000000000, DeletedAt = 0\<rparr>, True, None)"
  by (simp add: checkKVStore_mutator_def electedR1_def exampleConfig_def timestamp_Time_eq
      time_Sub_def maxDuration_def minDuration_def)

text \<open>
  Claim C2, amended. For a stored descriptor that is non-nil and live: if its replica
  differs from the requesting one and the time since its \<^verbatim>\<open>ReceivedAt\<close> is strictly less
  than the failover timeout, the mutator rejects with \<^verbatim>\<open>ReplicasNotMatchError\<close> and
  writes nothing; if its replica is the requesting one and that time is strictly less than
  the update timeout plus the jitter, the mutator changes nothing and returns no error;
  otherwise (no stored value, a tombstone, another replica at or past the failover
  timeout, the same replica at or past the update timeout plus jitter) it writes the
  fresh descriptor.
\<close>

theorem checkKVStore_mutator_decides:
  "(inp = DescPtr desc \<and> DeletedAt desc = 0 \<and> Replica desc \<noteq> replica
      \<and> time_Sub now (timestamp_Time (ReceivedAt desc)) <s FailoverTimeout config \<longrightarrow>
      checkKVStore_mutator config jitter replica now inp =
        Inr (None, False, Some (RNMVal \<lparr>err_replica = replica, err_elected = Replica desc\<rparr>)))
   \<and> (inp = DescPtr desc \<and> DeletedAt desc = 0 \<and> Replica desc = replica
      \<and> time_Sub now (timestamp_Time (ReceivedAt desc)) <s UpdateTimeout config + jitter \<longrightarrow>
      checkKVStore_mutator config jitter replica now inp = Inr (None, False, None))
   \<and> (inp = NilValue \<or> inp = Foreign
      \<or> (inp = DescPtr desc
          \<and> (DeletedAt desc \<noteq> 0
             \<or> (Replica desc \<noteq> replica
                 \<and> \<not> time_Sub now (timestamp_Time (ReceivedAt desc)) <s FailoverTimeout config)
             \<or> (Replica desc = replica
                 \<and> \<not> time_Sub now (timestamp_Time (ReceivedAt desc)) <s UpdateTimeout config + jitter))) \<longrightarrow>
      checkKVStore_mutator config jitter replica now inp =
        Inr (Some \<lparr>Replica = replica, ReceivedAt = timestamp_FromTime now, DeletedAt = 0\<rparr>, True, None))"
  by (auto simp: checkKVStore_mutator_def Let_def)

theorem checkKVStore_mutator_decides_witness:
  "checkKVStore_mutator exampleConfig 0 ''R2'' 10000000000 (DescPtr electedR1) =
     Inr (None, False, Some (RNMVal \<lparr>err_replica = ''R2'', err_elected = ''R1''\<rparr>))
   \<and> checkKVStore_mutator exampleConfig 0 ''R1'' 5000000000 (DescPtr electedR1) = Inr (None, False, None)
   \<and> checkKVStore_mutator exampleConfig 0 ''R2'' 30000000000 (DescPtr electedR1) =
       Inr (Some \<lparr>Replica = ''R2'', ReceivedAt = timestamp_FromTime 30000000000, DeletedAt = 0\<rparr>,
            True, None)"
proof -
  have s: "time_Sub 10000000000 (timestamp_Time (ReceivedAt electedR1)) <s FailoverTimeout exampleConfig"
    "time_Sub 5000000000 (timestamp_Time (ReceivedAt electedR1)) <s UpdateTimeout exampleConfig + 0"
    "\<not> time_Sub 30000000000 (timestamp_Time (ReceivedAt electedR1)) <s FailoverTimeout exampleConfig"
    by (simp_all add: electedR1_def exampleConfig_def timestamp_Time_eq time_Sub_def
        maxDuration_def minDuration_def)
  have d: "DeletedAt electedR1 = 0" "Replica electedR1 = ''R1''"
    by (simp_all add: electedR1_def)
  show ?thesis
    using checkKVStore_mutator_decides [of "DescPtr electedR1" electedR1 "''R2''" 10000000000 exampleConfig 0]
      checkKVStore_mutator_decides [of "DescPtr electedR1" electedR1 "''R1''" 5000000000 exampleConfig 0]
      checkKVStore_mutator_decides [of "DescPtr electedR1" electedR1 "''R2''" 30000000000 exampleConfig 0]
      s d
    by simp
qed

subsection \<open>The mutator of the cleanup sweep\<close>

text \<open>
  Claim C3 asks that a descriptor whose \<^verbatim>\<open>ReceivedAt\<close> was refreshed between the sweep's
  \<^verbatim>\<open>Get\<close> and its \<^verbatim>\<open>CAS\<close> is not tombstoned. The mutator tests the staleness of the
  descriptor read by \<^verbatim>\<open>Get\<close>, not of the one stored when it runs. In the sweep of the tick
  at 2800 s the deadline is 1000 s; \<^verbatim>\<open>Get\<close> reads a descriptor received at 0; a peer then
  refreshes the key, so that the stored descriptor is received at 2800 s, which is not
  before the deadline; the mutator nevertheless returns the stored descriptor with
  \<^verbatim>\<open>DeletedAt\<close> set to the wall clock, and the \<^verbatim>\<open>CAS\<close> writes this tombstone.
\<close>

theorem cleanup_mutator_marks_refreshed:
  "time_Before (timestamp_Time (ReceivedAt electedR1)) (time_Add 2800000000000 (- deletionTimeout))
   \<and> \<not> time_Before (timestamp_Time (ReceivedAt refreshedR1)) (time_Add 2800000000000 (- deletionTimeout))
   \<and> DeletedAt refreshedR1 = 0
   \<and> cleanup_mutator electedR1 (time_Add 2800000000000 (- deletionTimeout)) 2800000000000
         (DescPtr refreshedR1) =
       Inr (Some \<lparr>Replica = ''R1'', ReceivedAt = 2800000, DeletedAt = 2800000\<rparr>, True, None)
   \<and> (\<exists>cl. kv_CAS ''u1/c1''
               (cleanup_mutator electedR1 (time_Add 2800000000000 (- deletionTimeout)) 2800000000000)
               (exampleClient [(''u1/c1'', refreshedR1)]) = Inr (None, cl)
          \<and> kvdata cl = [(''u1/c1'', \<lparr>Replica = ''R1'', ReceivedAt = 2800000, DeletedAt = 2800000\<rparr>)])"
  by (simp add: cleanup_mutator_def electedR1_def refreshedR1_def timestamp_Time_eq time_Before_def
      timestamp_FromTime_def time_Add_def deletionTimeout_def Minute_def Second_def
      kv_CAS_def kv_fails_def kv_issue_def exampleClient_def)

subsection \<open>Counting the changes of the elected replica\<close>

lemma counterValue_Inc:
  "counterValue (Inc vec l) l' = counterValue vec l' + (if l' = l then 1 else 0)"
  by (simp add: counterValue_def Inc_def split: option.splits)

text \<open>
  Claim C8, as stated, fails: the counter also goes up when no replica is cached for the
  key. From an empty cache, the first observation of \<open>R1\<close> for \<open>u1/c1\<close> takes the counter
  of \<open>(u1, c1)\<close> from 0 to 1, although there is no cached replica that the observed one
  replaces.
\<close>

theorem first_election_counted_counterexample:
  "elected (exampleTracker None []) ''u1/c1'' = None
   \<and> counterValue (electedReplicaChanges (exampleTracker None [])) (''u1'', ''c1'') = 0
   \<and> (\<exists>c'. watchCallback ''u1/c1'' (DescPtr electedR1) (exampleTracker None []) = Inr (True, c')
          \<and> counterValue (electedReplicaChanges c') (''u1'', ''c1'') = 1)"
  by (simp add: watchCallback_def strings_Cut_def installReplica_def lookupElected_def
      zeroReplicaDesc_def exampleTracker_def electedR1_def counterValue_def Inc_def)

text \<open>
  Claim C8, amended. When the watch callback observes a live descriptor for a key that
  splits into tenant and replica group, the counter of elected-replica changes for that
  pair goes up by exactly one if \<^verbatim>\<open>elected\<close> holds an entry for the key whose replica
  differs from the observed one (a flip), or if \<^verbatim>\<open>elected\<close> holds no entry for the key and
  the observed replica is not the empty string (a first election); it goes up by nothing
  otherwise, and no other label changes. The comparison is with the cache as it is before
  the observed descriptor is installed. Moreover, whenever a callback leaves some counter
  higher than it was, the callback was such an observation, for that label, and the
  counter went up by one.
\<close>

theorem watchCallback_counts_changes:
  "(strings_Cut key ''/'' = (user, cluster, True) \<and> \<not> 0 <s DeletedAt r \<longrightarrow>
      (\<exists>c'. watchCallback key (DescPtr r) c = Inr (True, c')
         \<and> (\<forall>l. counterValue (electedReplicaChanges c') l =
                  counterValue (electedReplicaChanges c) l
                  + (if l = (user, cluster)
                        \<and> (case elected c key of None \<Rightarrow> Replica r \<noteq> []
                            | Some e \<Rightarrow> Replica r \<noteq> Replica e)
                     then 1 else 0))
         \<and> elected c' key = Some r))
   \<and> (watchCallback key val c = Inr (b, c'')
        \<and> counterValue (electedReplicaChanges c) l < counterValue (electedReplicaChanges c'') l \<longrightarrow>
      (\<exists>r'. val = DescPtr r' \<and> \<not> 0 <s DeletedAt r'
         \<and> strings_Cut key ''/'' = (fst l, snd l, True)
         \<and> (case elected c key of None \<Rightarrow> Replica r' \<noteq> [] | Some e \<Rightarrow> Replica r' \<noteq> Replica e)
         \<and> counterValue (electedReplicaChanges c'') l = counterValue (electedReplicaChanges c) l + 1))"
proof -
  have i: "\<exists>c'. watchCallback key (DescPtr r) c = Inr (True, c')
         \<and> (\<forall>l. counterValue (electedReplicaChanges c') l =
                  counterValue (electedReplicaChanges c) l
                  + (if l = (user, cluster)
                        \<and> (case elected c key of None \<Rightarrow> Replica r \<noteq> []
                            | Some e \<Rightarrow> Replica r \<noteq> Replica e)
                     then 1 else 0))
         \<and> elected c' key = Some r"
    if "strings_Cut key ''/'' = (user, cluster, True)" "\<not> 0 <s DeletedAt r"
    using that
    by (auto simp: watchCallback_def installReplica_def lookupElected_def zeroReplicaDesc_def
        Let_def counterValue_Inc split: prod.splits option.splits)
  have ii: "\<exists>r'. val = DescPtr r' \<and> \<not> 0 <s DeletedAt r'
         \<and> strings_Cut key ''/'' = (fst l, snd l, True)
         \<and> (case elected c key of None \<Rightarrow> Replica r' \<noteq> [] | Some e \<Rightarrow> Replica r' \<noteq> Replica e)
         \<and> counterValue (electedReplicaChanges c'') l = counterValue (electedReplicaChanges c) l + 1"
    if w: "watchCallback key val c = Inr (b, c'')"
      and lt: "counterValue (electedReplicaChanges c) l < counterValue (electedReplicaChanges c'') l"
  proof -
    obtain u g s where cut: "strings_Cut key ''/'' = (u, g, s)"
      by (cases "strings_Cut key ''/''") auto
    show ?thesis
    proof (cases s)
      case False
      with w cut lt show ?thesis
        by (auto simp: watchCallback_def split: if_splits)
    next
      case True
      with w cut obtain r' where v: "val = DescPtr r'"
        by (cases val) (auto simp: watchCallback_def split: if_splits)
      show ?thesis
      proof (cases "0 <s DeletedAt r'")
        case t: True
        with w cut True v have "c'' = dropReplica key u g c"
          by (simp add: watchCallback_def)
        with lt have False
          by (auto simp: dropReplica_def counterValue_def split: if_splits option.splits)
        then show ?thesis ..
      next
        case f: False
        with w cut True v have "c'' = installReplica key u g r' c"
          by (simp add: watchCallback_def)
        with lt cut True f v show ?thesis
          by (auto simp: installReplica_def lookupElected_def zeroReplicaDesc_def counterValue_Inc
              Let_def split: if_splits prod.splits option.splits)
      qed
    qed
  qed
  from i ii show ?thesis by blast
qed

theorem watchCallback_counts_changes_witness:
  "(\<exists>c'. watchCallback ''u1/c1'' (DescPtr \<lparr>Replica = ''R2'', ReceivedAt = 55000, DeletedAt = 0\<rparr>)
           (exampleTrackerR1 None) = Inr (True, c')
        \<and> counterValue (electedReplicaChanges c') (''u1'', ''c1'') = 1
        \<and> counterValue (electedReplicaChanges c') (''u1'', ''c2'') = 0
        \<and> elected c' ''u1/c1'' = Some \<lparr>Replica = ''R2'', ReceivedAt = 55000, DeletedAt = 0\<rparr>)
   \<and> (\<exists>c'. watchCallback ''u1/c1'' (DescPtr \<lparr>Replica = ''R1'', ReceivedAt = 20000, DeletedAt = 0\<rparr>)
           (exampleTrackerR1 None) = Inr (True, c')
        \<and> counterValue (electedReplicaChanges c') (''u1'', ''c1'') = 0
        \<and> elected c' ''u1/c1'' = Some \<lparr>Replica = ''R1'', ReceivedAt = 20000, DeletedAt = 0\<rparr>)"
proof -
  have cut: "strings_Cut ''u1/c1'' ''/'' = (''u1'', ''c1'', True)"
    by (simp add: strings_Cut_def)
  have live: "\<not> 0 <s DeletedAt \<lparr>Replica = rp, ReceivedAt = ra, DeletedAt = 0\<rparr>" for rp ra
    by simp
  have old: "elected (exampleTrackerR1 None) ''u1/c1'' = Some electedR1"
     "counterValue (electedReplicaChanges (exampleTrackerR1 None)) l = 0" for l
    by (simp_all add: exampleTrackerR1_def exampleTracker_def counterValue_def)
  have r1: "Replica electedR1 = ''R1''" by (simp add: electedR1_def)
  note t2 = watchCallback_counts_changes [of "''u1/c1''" "''u1''" "''c1''"
      "\<lparr>Replica = ''R2'', ReceivedAt = 55000, DeletedAt = 0\<rparr>" "exampleTrackerR1 None",
      THEN conjunct1, rule_format, OF conjI [OF cut live]]
  note t1 = watchCallback_counts_changes [of "''u1/c1''" "''u1''" "''c1''"
      "\<lparr>Replica = ''R1'', ReceivedAt = 20000, DeletedAt = 0\<rparr>" "exampleTrackerR1 None",
      THEN conjunct1, rule_format, OF conjI [OF cut live]]
  from t2 obtain c2 where w2: "watchCallback ''u1/c1'' (DescPtr \<lparr>Replica = ''R2'', ReceivedAt = 55000, DeletedAt = 0\<rparr>)
           (exampleTrackerR1 None) = Inr (True, c2)"
    and n2: "\<And>l. counterValue (electedReplicaChanges c2) l =
                  counterValue (electedReplicaChanges (exampleTrackerR1 None)) l
                  + (if l = (''u1'', ''c1'')
                        \<and> (case elected (exampleTrackerR1 None) ''u1/c1'' of
                              None \<Rightarrow> Replica \<lparr>Replica = ''R2'', ReceivedAt = 55000, DeletedAt = 0\<rparr> \<noteq> []
                            | Some e \<Rightarrow> Replica \<lparr>Replica = ''R2'', ReceivedAt = 55000, DeletedAt = 0\<rparr> \<noteq> Replica e)
                     then 1 else 0)"
    and e2: "elected c2 ''u1/c1'' = Some \<lparr>Replica = ''R2'', ReceivedAt = 55000, DeletedAt = 0\<rparr>"
    by blast
  from t1 obtain c1 where w1: "watchCallback ''u1/c1'' (DescPtr \<lparr>Replica = ''R1'', ReceivedAt = 20000, DeletedAt = 0\<rparr>)
           (exampleTrackerR1 None) = Inr (True, c1)"
    and n1: "\<And>l. counterValue (electedReplicaChanges c1) l =
                  counterValue (electedReplicaChanges (exampleTrackerR1 None)) l
                  + (if l = (''u1'', ''c1'')
                        \<and> (case elected (exampleTrackerR1 None) ''u1/c1'' of
                              None \<Rightarrow> Replica \<lparr>Replica = ''R1'', ReceivedAt = 20000, DeletedAt = 0\<rparr> \<noteq> []
                            | Some e \<Rightarrow> Replica \<lparr>Replica = ''R1'', ReceivedAt = 20000, DeletedAt = 0\<rparr> \<noteq> Replica e)
                     then 1 else 0)"
    and e1: "elected c1 ''u1/c1'' = Some \<lparr>Replica = ''R1'', ReceivedAt = 20000, DeletedAt = 0\<rparr>"
    by blast
  have "counterValue (electedReplicaChanges c2) (''u1'', ''c1'') = 1"
    "counterValue (electedReplicaChanges c2) (''u1'', ''c2'') = 0"
    "counterValue (electedReplicaChanges c1) (''u1'', ''c1'') = 0"
    by (simp_all add: n1 n2 old r1)
  with w1 w2 e1 e2 show ?thesis by blast
qed

subsection \<open>The cache mirrors the watched keys\<close>

lemma cutAt_slash_Some:
  "cutAt ''/'' s = Some (b, a) \<Longrightarrow> s = b @ ''/'' @ a \<and> CHR ''/'' \<notin> set b"
proof (induction s arbitrary: b)
  case Nil
  then show ?case by simp
next
  case (Cons x xs)
  then show ?case
    by (auto split: if_splits option.splits)
qed

lemma cutAt_slash_append:
  "CHR ''/'' \<notin> set t \<Longrightarrow> cutAt ''/'' (t @ ''/'' @ g) = Some (t, g)"
  by (induction t) auto

lemma strings_Cut_found:
  "strings_Cut key ''/'' = (user, cluster, True) \<Longrightarrow> key = user @ ''/'' @ cluster \<and> CHR ''/'' \<notin> set user"
  by (auto simp: strings_Cut_def split: option.splits dest: cutAt_slash_Some)

lemma strings_Cut_append:
  "CHR ''/'' \<notin> set t \<Longrightarrow> strings_Cut (t @ ''/'' @ g) ''/'' = (t, g, True)"
  using cutAt_slash_append [of t g] by (simp add: strings_Cut_def)

lemma key_inj:
  assumes "CHR ''/'' \<notin> set u" "CHR ''/'' \<notin> set v" "u @ ''/'' @ g = v @ ''/'' @ h"
  shows "u = v \<and> g = h"
proof -
  have "strings_Cut (u @ ''/'' @ g) ''/'' = (u, g, True)"
    using assms(1) by (rule strings_Cut_append)
  moreover have "strings_Cut (v @ ''/'' @ h) ''/'' = (v, h, True)"
    using assms(2) by (rule strings_Cut_append)
  ultimately show ?thesis
    unfolding assms(3) by simp
qed


lemma groupsOf_dropReplica:
  "groupsOf (dropReplica key user cluster c) u =
     (if u = user then groupsOf c user |-| {|cluster|} else groupsOf c u)"
  by (auto simp: groupsOf_def dropReplica_def split: option.splits)

lemma replicaGroups_dropReplica_nonempty:
  "\<forall>u. replicaGroups c u \<noteq> Some {||} \<Longrightarrow> replicaGroups (dropReplica key user cluster c) u \<noteq> Some {||}"
  by (auto simp: dropReplica_def split: option.splits)

lemma elected_dropReplica: "elected (dropReplica key user cluster c) = (elected c)(key := None)"
  by (simp add: dropReplica_def)

lemma groupsOf_installReplica:
  "groupsOf (installReplica key user cluster r c) u =
     (if u = user \<and> elected c key = None then finsert cluster (groupsOf c user) else groupsOf c u)"
  by (auto simp: groupsOf_def installReplica_def lookupElected_def split: option.splits)

lemma replicaGroups_installReplica_nonempty:
  "\<forall>u. replicaGroups c u \<noteq> Some {||} \<Longrightarrow> replicaGroups (installReplica key user cluster r c) u \<noteq> Some {||}"
  by (auto simp: installReplica_def lookupElected_def split: option.splits)

lemma elected_installReplica: "elected (installReplica key user cluster r c) = (elected c)(key \<mapsto> r)"
  by (simp add: installReplica_def lookupElected_def split: option.splits)

lemma key_eq_iff:
  "CHR ''/'' \<notin> set u \<Longrightarrow> CHR ''/'' \<notin> set user \<Longrightarrow>
     (u @ ''/'' @ g = user @ ''/'' @ cluster) = (u = user \<and> g = cluster)"
  using key_inj [of u user g cluster] by blast

lemma cacheInv_dropReplica:
  assumes inv: "cacheInv c" and u: "CHR ''/'' \<notin> set user" and k: "key = user @ ''/'' @ cluster"
  shows "cacheInv (dropReplica key user cluster c)"
proof -
  have 1: "\<forall>k d. elected (dropReplica key user cluster c) k = Some d \<longrightarrow> \<not> 0 <s DeletedAt d"
    using inv by (auto simp: cacheInv_def elected_dropReplica split: if_splits)
  have 2: "\<forall>v. replicaGroups (dropReplica key user cluster c) v \<noteq> Some {||}"
    using inv replicaGroups_dropReplica_nonempty [of c] by (simp add: cacheInv_def)
  have g: "\<And>v g. g |\<in>| groupsOf c v \<longleftrightarrow> CHR ''/'' \<notin> set v \<and> elected c (v @ ''/'' @ g) \<noteq> None"
    using inv by (simp add: cacheInv_def)
  have 3: "g |\<in>| groupsOf (dropReplica key user cluster c) v \<longleftrightarrow>
             CHR ''/'' \<notin> set v \<and> elected (dropReplica key user cluster c) (v @ ''/'' @ g) \<noteq> None" for v g
  proof (cases "CHR ''/'' \<in> set v")
    case True
    with u g [of _ v] show ?thesis
      by (auto simp: groupsOf_dropReplica)
  next
    case False
    show ?thesis
      unfolding groupsOf_dropReplica elected_dropReplica k
      using False u g [of g v] key_eq_iff [OF False u, of g cluster]
      by auto
  qed
  show ?thesis
    unfolding cacheInv_def using 1 2 3 by blast
qed

lemma cacheInv_installReplica:
  assumes inv: "cacheInv c" and u: "CHR ''/'' \<notin> set user" and k: "key = user @ ''/'' @ cluster"
    and live: "\<not> 0 <s DeletedAt r"
  shows "cacheInv (installReplica key user cluster r c)"
proof -
  have 1: "\<forall>k d. elected (installReplica key user cluster r c) k = Some d \<longrightarrow> \<not> 0 <s DeletedAt d"
    using inv live by (auto simp: cacheInv_def elected_installReplica split: if_splits)
  have 2: "\<forall>v. replicaGroups (installReplica key user cluster r c) v \<noteq> Some {||}"
    using inv replicaGroups_installReplica_nonempty [of c] by (simp add: cacheInv_def)
  have g: "\<And>v g. g |\<in>| groupsOf c v \<longleftrightarrow> CHR ''/'' \<notin> set v \<and> elected c (v @ ''/'' @ g) \<noteq> None"
    using inv by (simp add: cacheInv_def)
  have 3: "g |\<in>| groupsOf (installReplica key user cluster r c) v \<longleftrightarrow>
             CHR ''/'' \<notin> set v \<and> elected (installReplica key user cluster r c) (v @ ''/'' @ g) \<noteq> None" for v g
  proof (cases "CHR ''/'' \<in> set v")
    case True
    with u g [of _ v] show ?thesis
      by (auto simp: groupsOf_installReplica)
  next
    case False
    show ?thesis
      unfolding groupsOf_installReplica elected_installReplica k
      using False u g [of g v] g [of cluster user] key_eq_iff [OF False u, of g cluster]
      by auto
  qed
  show ?thesis
    unfolding cacheInv_def using 1 2 3 by blast
qed

lemma cacheInv_watchCallback:
  "cacheInv c \<Longrightarrow> watchCallback key val c = Inr (b, c') \<Longrightarrow> cacheInv c'"
  by (auto simp: watchCallback_def Let_def split: if_splits prod.splits kv_value.splits
      dest!: strings_Cut_found intro: cacheInv_dropReplica cacheInv_installReplica)

lemma cacheInv_watchAll:
  "cacheInv c \<Longrightarrow> watchAll evs c = Inr c' \<Longrightarrow> cacheInv c'"
proof (induction evs arbitrary: c)
  case Nil
  then show ?case by simp
next
  case (Cons ev evs)
  obtain key val where ev: "ev = (key, val)" by (cases ev)
  from Cons.prems(2) obtain b c1 where s: "watchCallback key val c = Inr (b, c1)"
    and r: "watchAll evs c1 = Inr c'"
    by (auto simp: ev split: sum.splits)
  from Cons.prems(1) s have "cacheInv c1" by (rule cacheInv_watchCallback)
  then show ?case using r by (rule Cons.IH)
qed

lemma cacheInv_empty:
  "elected c = Map.empty \<Longrightarrow> replicaGroups c = Map.empty \<Longrightarrow> cacheInv c"
  by (simp add: cacheInv_def groupsOf_def)

text \<open>
  Claim C5, as stated, fails for a tenant whose name contains the separator: after the
  notification of a live descriptor for the key \<open>a/b/c\<close>, the key of tenant \<open>a/b\<close> and group
  \<open>c\<close> is cached, but the callback has filed the key under tenant \<open>a\<close>, and tenant \<open>a/b\<close>
  has no groups.
\<close>

theorem replicaGroups_mirror_elected_counterexample:
  "\<exists>c. watchAll [(''a/b/c'', DescPtr electedR1)] (exampleTracker None []) = Inr c
       \<and> elected c (''a/b'' @ ''/'' @ ''c'') = Some electedR1
       \<and> DeletedAt electedR1 = 0
       \<and> replicaGroups c ''a/b'' = None
       \<and> ''c'' |\<notin>| groupsOf c ''a/b''"
  by (simp add: watchCallback_def strings_Cut_def installReplica_def lookupElected_def
      exampleTracker_def electedR1_def groupsOf_def)

text \<open>
  Claim C5, amended. In every state of the cache reached from an empty cache by a sequence
  of watch-callback invocations, and for every tenant \<open>t\<close> whose name does not contain
  \<open>/\<close>, the groups recorded for \<open>t\<close> are exactly the groups \<open>g\<close> such that the key \<open>t/g\<close>
  has an entry in \<^verbatim>\<open>elected\<close>, none of which is a tombstone; a tenant is never recorded
  with an empty set; and a tombstone notification for \<open>t/g\<close> removes the key from
  \<^verbatim>\<open>elected\<close> and the group from the tenant's set in the same step, and the tenant itself
  when no other group is left.
\<close>

theorem replicaGroups_mirror_elected:
  assumes "elected c0 = Map.empty" and "replicaGroups c0 = Map.empty"
    and "watchAll evs c0 = Inr c"
    and "CHR ''/'' \<notin> set t"
  shows "fset (groupsOf c t) = {g. \<exists>d. elected c (t @ ''/'' @ g) = Some d \<and> \<not> 0 <s DeletedAt d}
       \<and> replicaGroups c t \<noteq> Some {||}
       \<and> (\<forall>g d. 0 <s DeletedAt d \<longrightarrow>
            (\<exists>c'. watchCallback (t @ ''/'' @ g) (DescPtr d) c = Inr (True, c')
               \<and> elected c' (t @ ''/'' @ g) = None
               \<and> g |\<notin>| groupsOf c' t
               \<and> (groupsOf c t |\<subseteq>| {|g|} \<longrightarrow> replicaGroups c' t = None)))"
proof -
  have inv: "cacheInv c"
    using cacheInv_empty [OF assms(1,2)] assms(3) by (rule cacheInv_watchAll)
  have a: "fset (groupsOf c t) = {g. \<exists>d. elected c (t @ ''/'' @ g) = Some d \<and> \<not> 0 <s DeletedAt d}"
    using inv assms(4) by (auto simp: cacheInv_def)
  have b: "replicaGroups c t \<noteq> Some {||}"
    using inv by (simp add: cacheInv_def)
  have d: "\<exists>c'. watchCallback (t @ ''/'' @ g) (DescPtr d) c = Inr (True, c')
               \<and> elected c' (t @ ''/'' @ g) = None
               \<and> g |\<notin>| groupsOf c' t
               \<and> (groupsOf c t |\<subseteq>| {|g|} \<longrightarrow> replicaGroups c' t = None)"
    if "0 <s DeletedAt d" for g d
  proof -
    have cut: "strings_Cut (t @ ''/'' @ g) ''/'' = (t, g, True)"
      using assms(4) by (rule strings_Cut_append)
    have w: "watchCallback (t @ ''/'' @ g) (DescPtr d) c = Inr (True, dropReplica (t @ ''/'' @ g) t g c)"
      using that cut by (simp add: watchCallback_def)
    have "groupsOf c t |\<subseteq>| {|g|} \<longrightarrow> replicaGroups (dropReplica (t @ ''/'' @ g) t g c) t = None"
      by (auto simp: dropReplica_def groupsOf_def split: option.splits)
    then show ?thesis
      using w by (simp add: elected_dropReplica groupsOf_dropReplica)
  qed
  from a b d show ?thesis by blast
qed

theorem replicaGroups_mirror_elected_witness:
  "\<exists>c. watchAll exampleEvents (exampleTracker None []) = Inr c
       \<and> fset (groupsOf c ''u1'') = {g. \<exists>d. elected c (''u1'' @ ''/'' @ g) = Some d \<and> \<not> 0 <s DeletedAt d}
       \<and> groupsOf c ''u1'' = {|''c2''|}
       \<and> elected c ''u1/c1'' = None
       \<and> replicaGroups c ''u1'' \<noteq> Some {||}"
proof -
  have e: "elected (exampleTracker None []) = Map.empty" "replicaGroups (exampleTracker None []) = Map.empty"
    by (simp_all add: exampleTracker_def)
  have t: "CHR ''/'' \<notin> set ''u1''" by simp
  have "\<exists>c. watchAll exampleEvents (exampleTracker None []) = Inr c
          \<and> groupsOf c ''u1'' = {|''c2''|} \<and> elected c ''u1/c1'' = None"
    by (simp add: exampleEvents_def watchCallback_def strings_Cut_def electedR1_def word_sless_alt
        groupsOf_dropReplica groupsOf_installReplica elected_dropReplica elected_installReplica)
      (auto simp: exampleTracker_def groupsOf_def)
  then obtain c where c: "watchAll exampleEvents (exampleTracker None []) = Inr c"
    and g: "groupsOf c ''u1'' = {|''c2''|}" and n: "elected c ''u1/c1'' = None"
    by blast
  from replicaGroups_mirror_elected [OF e c t] c g n show ?thesis by blast
qed

subsection \<open>The cleanup sweep and tombstones\<close>

lemma kv_Get_effect:
  "kv_Get k cl = (res, cl') \<Longrightarrow>
     kvdata cl' = kvdata cl \<and> kvfail cl' = kvfail cl \<and> kvops cl' = kvops cl @ [OpGet k]
     \<and> (res = (if kv_fails cl then Inl (kv_error cl)
                else Inr (case map_of (kvdata cl) k of None \<Rightarrow> NilValue | Some d \<Rightarrow> DescPtr d)))"
  by (auto simp: kv_Get_def kv_issue_def split: if_splits)

lemma kv_Delete_effect:
  "kv_Delete k cl = (err, cl') \<Longrightarrow>
     kvfail cl' = kvfail cl \<and> kvops cl' = kvops cl @ [OpDelete k]
     \<and> (err = None) = (\<not> kv_fails cl)
     \<and> map_of (kvdata cl') = (if kv_fails cl then map_of (kvdata cl) else (map_of (kvdata cl))(k := None))"
  by (auto simp: kv_Delete_def kv_issue_def delete_conv' split: if_splits)

lemma kv_CAS_effect:
  "kv_CAS k f cl = Inr (err, cl') \<Longrightarrow>
     kvfail cl' = kvfail cl \<and> kvops cl' = kvops cl @ [OpCAS k]
     \<and> (\<forall>k'. k' \<noteq> k \<longrightarrow> map_of (kvdata cl') k' = map_of (kvdata cl) k')"
  by (auto simp: kv_CAS_def kv_issue_def update_conv' split: if_splits sum.splits option.splits prod.splits)

lemma kv_CAS_cleanup_total:
  "\<exists>err cl'. kv_CAS k (cleanup_mutator desc deadline w) cl = Inr (err, cl')"
  by (auto simp: kv_CAS_def cleanup_mutator_def split: option.splits)

text \<open>What one round of the loop does to the client.\<close>

lemma cleanupKey_client:
  "\<exists>c'. cleanupKey deadline w k c = Inr c'
     \<and> kvfail (client c') = kvfail (client c)
     \<and> elected c' = elected c \<and> replicaGroups c' = replicaGroups c
     \<and> (\<forall>k'. k' \<noteq> k \<longrightarrow> map_of (kvdata (client c')) k' = map_of (kvdata (client c)) k')
     \<and> (\<exists>new. kvops (client c') = kvops (client c) @ new
           \<and> (OpCAS k \<in> set new \<longrightarrow>
                (\<exists>d. map_of (kvdata (client c)) k = Some d \<and> DeletedAt d = 0))
           \<and> (\<forall>k'. k' \<noteq> k \<longrightarrow> OpCAS k' \<notin> set new \<and> OpDelete k' \<notin> set new)
           \<and> (OpDelete k \<in> set new \<longrightarrow>
                (\<exists>d. map_of (kvdata (client c)) k = Some d \<and> 0 <s DeletedAt d
                   \<and> \<not> time_After (timestamp_Time (DeletedAt d)) deadline))
           \<and> (\<forall>d. map_of (kvdata (client c)) k = Some d \<and> 0 <s DeletedAt d \<longrightarrow>
                 (map_of (kvdata (client c')) k = Some d
                  \<or> map_of (kvdata (client c')) k = None \<and> OpDelete k \<in> set new)
                 \<and> (\<not> kvfail (client c) (length (kvops (client c)))
                      \<and> \<not> kvfail (client c) (Suc (length (kvops (client c))))
                      \<and> \<not> time_After (timestamp_Time (DeletedAt d)) deadline \<longrightarrow>
                      map_of (kvdata (client c')) k = None)))
     \<and> (map_of (kvdata (client c)) k = None \<longrightarrow> map_of (kvdata (client c')) k = None)"
proof -
  obtain res cl where g: "kv_Get k (client c) = (res, cl)"
    by (cases "kv_Get k (client c)")
  note ge = kv_Get_effect [OF g]
  show ?thesis
  proof (cases "kv_fails (client c)")
    case True
    with g ge show ?thesis
      by (simp add: cleanupKey_def Log_def kv_fails_def)
  next
    case nf: False
    show ?thesis
    proof (cases "map_of (kvdata (client c)) k")
      case None
      with g ge nf show ?thesis
        by (simp add: cleanupKey_def Log_def)
    next
      case (Some desc)
      show ?thesis
      proof (cases "0 <s DeletedAt desc")
        case tomb: True
        show ?thesis
        proof (cases "time_After (timestamp_Time (DeletedAt desc)) deadline")
          case True
          with g ge nf Some tomb show ?thesis
            by (simp add: cleanupKey_def)
        next
          case due: False
          obtain err cl2 where d: "kv_Delete k cl = (err, cl2)"
            by (cases "kv_Delete k cl")
          note de = kv_Delete_effect [OF d]
          have f2: "kv_fails cl = kvfail (client c) (Suc (length (kvops (client c))))"
            using ge by (simp add: kv_fails_def)
          show ?thesis
            using g ge nf Some tomb due d de f2
            by (cases err) (auto simp: cleanupKey_def Log_def kv_fails_def)
        qed
      next
        case live: False
        show ?thesis
        proof (cases "DeletedAt desc = 0 \<and> time_Before (timestamp_Time (ReceivedAt desc)) deadline")
          case False
          with g ge nf Some live show ?thesis
            by (auto simp: cleanupKey_def)
        next
          case True
          obtain err cl2 where s: "kv_CAS k (cleanup_mutator desc deadline w) cl = Inr (err, cl2)"
            using kv_CAS_cleanup_total by blast
          note ce = kv_CAS_effect [OF s]
          show ?thesis
            using g ge nf Some live True s ce
            by (cases err) (auto simp: cleanupKey_def Log_def Let_def)
        qed
      qed
    qed
  qed
qed




lemma deadline_of_tick: "time_Add t (- deletionTimeout) = t - 1800000000000"
  by (simp add: time_Add_def deletionTimeout_def Minute_def Second_def)


text \<open>
  The claim's consequence fails as well, by less than a millisecond: the mutator of the
  marking sweep stamps \<^verbatim>\<open>DeletedAt\<close> with the wall clock rounded down to the millisecond,
  so a tombstone written at 3600.000999999 s carries the stamp 3600.000 s and is deleted
  by the tick at 5400 s, when it has existed for less than the deletion timeout.
\<close>

lemma cleanup_mutator_stamp:
  "cleanup_mutator desc deadline wall inp = Inr (Some d', retry, err) \<Longrightarrow>
     DeletedAt d' = timestamp_FromTime wall"
  by (auto simp: cleanup_mutator_def split: kv_value.splits if_splits)

lemma cleanupTick_stamp_rounding_example:
  "timestamp_FromTime 3600000999999 = 3600000
   \<and> (\<exists>c'. cleanupTick (\<lambda>i. False) 5400000000000 (\<lambda>i. 5400000000000)
           (exampleTracker None
              [(''u1/c1'', \<lparr>Replica = ''R1'', ReceivedAt = 0, DeletedAt = 3600000\<rparr>)]) = Inr c'
          \<and> kvdata (client c') = [])
   \<and> 5400000000000 - 3600000999999 < sint deletionTimeout"
proof (intro conjI)
  show "timestamp_FromTime 3600000999999 = 3600000"
    by (simp add: timestamp_FromTime_eq)
  show "\<exists>c'. cleanupTick (\<lambda>i. False) 5400000000000 (\<lambda>i. 5400000000000)
           (exampleTracker None
              [(''u1/c1'', \<lparr>Replica = ''R1'', ReceivedAt = 0, DeletedAt = 3600000\<rparr>)]) = Inr c'
          \<and> kvdata (client c') = []"
    by (simp add: cleanupTick_def cleanupOldReplicas_def kv_List_def cleanupKey_def kv_Get_def
        kv_Delete_def kv_issue_def kv_fails_def Log_def exampleTracker_def exampleClient_def
        timestamp_Time_eq time_After_def deadline_of_tick Let_def word_sless_alt)
  show "5400000000000 - 3600000999999 < sint deletionTimeout"
    by (simp add: deletionTimeout_def Minute_def Second_def)
qed



text \<open>The sweep, like the admission check, leaves the two maps of the cache as they were.\<close>

lemma cleanupKeys_cache_unchanged:
  "\<exists>c'. cleanupKeys ctxErr deadline wall i keys c = Inr c'
     \<and> elected c' = elected c \<and> replicaGroups c' = replicaGroups c"
proof (induction keys arbitrary: c i)
  case Nil
  show ?case by simp
next
  case (Cons k ks)
  obtain c1 where s1: "cleanupKey deadline (wall i) k c = Inr c1"
    and e1: "elected c1 = elected c" and g1: "replicaGroups c1 = replicaGroups c"
    using cleanupKey_client [of deadline "wall i" k c] by blast
  obtain c' where s2: "cleanupKeys ctxErr deadline wall (Suc i) ks c1 = Inr c'"
    and e2: "elected c' = elected c1" and g2: "replicaGroups c' = replicaGroups c1"
    using Cons.IH [of "Suc i" c1] by blast
  show ?case
    using s1 s2 e1 e2 g1 g2 by (cases "ctxErr i") simp_all
qed

lemma cleanupOldReplicas_cache_unchanged:
  "\<exists>c'. cleanupOldReplicas ctxErr deadline wall c = Inr c'
     \<and> elected c' = elected c \<and> replicaGroups c' = replicaGroups c"
proof (cases "kv_fails (client c)")
  case True
  then show ?thesis
    by (simp add: cleanupOldReplicas_def kv_List_def Log_def)
next
  case False
  then show ?thesis
    using cleanupKeys_cache_unchanged [of ctxErr deadline wall 0 "map fst (kvdata (client c))"
        "c\<lparr>client := kv_issue OpList (client c)\<rparr>"]
    by (simp add: cleanupOldReplicas_def kv_List_def)
qed

subsection \<open>Two end-to-end scenarios\<close>

text \<open>
  Election from empty: the first sample of \<open>R1\<close> is accepted and the descriptor written by
  one \<^verbatim>\<open>CAS\<close>; the cache itself is still empty afterwards. Failover after silence: 55 s
  after the last sample of \<open>R1\<close>, a sample of \<open>R2\<close> is accepted and \<open>R2\<close> is written.
\<close>

lemma scenario_election_from_empty:
  "\<exists>c'. CheckReplica ''u1'' ''c1'' ''R1'' 0 (exampleTracker None []) = Inr (None, c')
     \<and> kvdata (client c') = [(''u1/c1'', electedR1)]
     \<and> kvops (client c') = [OpCAS ''u1/c1'']
     \<and> counterValue (kvCASCalls c') (''u1'', ''c1'') = 1
     \<and> elected c' = Map.empty"
  by (simp add: CheckReplica_def CheckReplica_slowPath_def checkKVStore_def kv_CAS_def
      checkKVStore_mutator_def lookupElected_def groupsOf_def exampleTracker_def exampleClient_def
      exampleConfig_def electedR1_def kv_fails_def kv_issue_def timestamp_FromTime_def
      counterValue_def Inc_def Let_def)

lemma scenario_failover_after_silence:
  "\<exists>c'. CheckReplica ''u1'' ''c1'' ''R2'' 55000000000 (exampleTrackerR1 None) = Inr (None, c')
     \<and> kvdata (client c') = [(''u1/c1'', \<lparr>Replica = ''R2'', ReceivedAt = 55000, DeletedAt = 0\<rparr>)]"
  by (simp add: CheckReplica_def CheckReplica_slowPath_def checkKVStore_def kv_CAS_def
      checkKVStore_mutator_def lookupElected_def groupsOf_def exampleTrackerR1_def exampleTracker_def
      exampleClient_def exampleConfig_def electedR1_def kv_fails_def kv_issue_def
      timestamp_FromTime_def timestamp_Time_eq time_Sub_def maxDuration_def minDuration_def
      Let_def)

end
